theory Spec2Isabelle
  imports Complex_Main "HOL-Library.Sublist" "HOL-Library.Multiset"
begin

section \<open>Illustrator importer: a shallow embedding of app.tsx\<close>

text \<open>
  The importer turns a layout description (objects with geometry, text data and clip
  shapes) into the scene elements of one page. This theory embeds the pure and the
  state-passing parts of \<^verbatim>\<open>src/intents/design_editor/app.tsx\<close>:
  the shape path synthesizer, the font matcher, the interactive font resolution with
  its cache, the element compiler with its opacity bookkeeping, the paint-order sort
  and the page-creation retry loop.

  Conventions of the model.
  \<^item> A JavaScript number is a \<^typ>\<open>real\<close>: arithmetic is exact, the rounding error of
    IEEE doubles, NaN and the infinities are not modelled.
  \<^item> A JavaScript string is a \<^typ>\<open>string\<close> of code units; \<open>toLowerCase\<close> and the
    regular expression class \<^verbatim>\<open>\s\<close> are modelled on the ASCII range.
  \<^item> A \<^verbatim>\<open>Map\<close> that the code iterates is an association list in insertion order;
    a \<^verbatim>\<open>Map\<close> that is only looked up is a partial function.
  \<^item> The platform's opaque references (\<^verbatim>\<open>FontRef\<close>, \<^verbatim>\<open>ImageRef\<close>) are names; a
    reference that exists is truthy and a font reference differs from the sentinel
    \<^verbatim>\<open>"use_svg"\<close>, which the union type \<^verbatim>\<open>FontChoice\<close> makes a constructor of its own.
  \<^item> Log lines, the status line and the progress bar are not part of the state.
\<close>

subsection \<open>Strings\<close>

definition lowerChar :: "char \<Rightarrow> char" where
  "lowerChar c =
     (case map_of (zip ''ABCDEFGHIJKLMNOPQRSTUVWXYZ'' ''abcdefghijklmnopqrstuvwxyz'') c of
        Some d \<Rightarrow> d
      | None \<Rightarrow> c)"

definition toLowerCase :: "string \<Rightarrow> string" where
  "toLowerCase s = map lowerChar s"

text \<open>The class \<^verbatim>\<open>\s\<close>: space, tab, line feed, vertical tab, form feed, carriage return.\<close>

definition isSpace :: "char \<Rightarrow> bool" where
  "isSpace c = (c \<in> set [CHR '' '', CHR 0x09, CHR 0x0A, CHR 0x0B, CHR 0x0C, CHR 0x0D])"

text \<open>The class \<^verbatim>\<open>[\s\-]\<close> of the style pattern and the class \<^verbatim>\<open>[\s\-_]\<close> of the
  normalisation pattern.\<close>

definition isSpaceHyphen :: "char \<Rightarrow> bool" where
  "isSpaceHyphen c = (isSpace c \<or> c = CHR ''-'')"

definition isSeparator :: "char \<Rightarrow> bool" where
  "isSeparator c = (isSpace c \<or> c = CHR ''-'' \<or> c = CHR ''_'')"

definition trim :: "string \<Rightarrow> string" where
  "trim s = rev (dropWhile isSpace (rev (dropWhile isSpace s)))"

text \<open>\<^verbatim>\<open>a.includes(b)\<close>: \<open>b\<close> occurs in \<open>a\<close> as a contiguous substring.\<close>

fun includesStr :: "string \<Rightarrow> string \<Rightarrow> bool" where
  "includesStr [] b = (b = [])"
| "includesStr (c # cs) b = (prefix b (c # cs) \<or> includesStr cs b)"

text \<open>Truthiness of an optional string: \<^verbatim>\<open>undefined\<close> and \<^verbatim>\<open>""\<close> are falsy.\<close>

definition truthy :: "string option \<Rightarrow> string option" where
  "truthy s = (case s of None \<Rightarrow> None | Some v \<Rightarrow> if v = [] then None else Some v)"

subsection \<open>Numbers and their decimal rendering\<close>

text \<open>\<^verbatim>\<open>Math.round\<close> rounds to the nearest integer, a tie towards plus infinity.\<close>

definition mathRound :: "real \<Rightarrow> int" where
  "mathRound v = \<lfloor>v + 1 / 2\<rfloor>"

definition mathCeil :: "real \<Rightarrow> int" where
  "mathCeil v = \<lceil>v\<rceil>"

definition digit :: "nat \<Rightarrow> char" where
  "digit d = ''0123456789'' ! d"

fun natStr :: "nat \<Rightarrow> string" where
  "natStr n = (if n < 10 then [digit n] else natStr (n div 10) @ [digit (n mod 10)])"

declare natStr.simps [simp del]

text \<open>
  \<^verbatim>\<open>String(v)\<close> for a number with at most two fractional digits, which is what \<open>r2\<close>
  below returns and what the literal \<open>0\<close> is: sign, integer part, then the fraction
  without trailing zeros. (Numbers from \<open>1e21\<close> on print in exponent notation in
  JavaScript; the model prints all digits.)
\<close>

definition numStr :: "real \<Rightarrow> string" where
  "numStr v =
     (let k = \<lfloor>v * 100\<rfloor>; a = nat \<bar>k\<bar>; ip = a div 100; fp = a mod 100
      in (if k < 0 then ''-'' else '''') @ natStr ip @
         (if fp = 0 then ''''
          else ''.'' @ [digit (fp div 10)] @
               (if fp mod 10 = 0 then '''' else [digit (fp mod 10)])))"

subsection \<open>generateShapePath\<close>

datatype ShapeType = Ellipse | Rect | Unknown

record ClipShape =
  cs_type :: ShapeType
  cornerRadius :: "real option"

text \<open>An entry of the array that \<^verbatim>\<open>join(" ")\<close> renders: a command letter or a number.\<close>

datatype tok = S string | N real

fun tokStr :: "tok \<Rightarrow> string" where
  "tokStr (S s) = s"
| "tokStr (N v) = numStr v"

fun joinSp :: "string list \<Rightarrow> string" where
  "joinSp [] = ''''"
| "joinSp [s] = s"
| "joinSp (s # t # ts) = s @ '' '' @ joinSp (t # ts)"

definition r2 :: "real \<Rightarrow> real" where
  "r2 v = real_of_int (mathRound (v * 100)) / 100"

definition K :: real where
  "K = 5523 / 10000"

definition ellipseTokens :: "real \<Rightarrow> real \<Rightarrow> tok list" where
  "ellipseTokens w h =
     (let cx = w / 2; cy = h / 2; rx = w / 2; ry = h / 2 in
      [S ''M'', N (r2 cx), N 0,
       S ''C'', N (r2 (cx + rx * K)), N 0, N (r2 w), N (r2 (cy - ry * K)), N (r2 w), N (r2 cy),
       S ''C'', N (r2 w), N (r2 (cy + ry * K)), N (r2 (cx + rx * K)), N (r2 h), N (r2 cx), N (r2 h),
       S ''C'', N (r2 (cx - rx * K)), N (r2 h), N 0, N (r2 (cy + ry * K)), N 0, N (r2 cy),
       S ''C'', N 0, N (r2 (cy - ry * K)), N (r2 (cx - rx * K)), N 0, N (r2 cx), N 0,
       S ''Z''])"

definition plainRectPath :: "real \<Rightarrow> real \<Rightarrow> string" where
  "plainRectPath w h =
     ''M 0 0 L '' @ numStr (r2 w) @ '' 0 L '' @ numStr (r2 w) @ '' '' @ numStr (r2 h) @
     '' L 0 '' @ numStr (r2 h) @ '' Z''"

text \<open>The array of the rounded rectangle, for the clamped radius \<open>rr\<close>.\<close>

definition roundedRectTokens :: "real \<Rightarrow> real \<Rightarrow> real \<Rightarrow> tok list" where
  "roundedRectTokens w h rr =
     (let kk = rr * K in
      [S ''M'', N (r2 rr), N 0,
       S ''L'', N (r2 (w - rr)), N 0,
       S ''C'', N (r2 (w - rr + kk)), N 0, N (r2 w), N (r2 (rr - kk)), N (r2 w), N (r2 rr),
       S ''L'', N (r2 w), N (r2 (h - rr)),
       S ''C'', N (r2 w), N (r2 (h - rr + kk)), N (r2 (w - rr + kk)), N (r2 h), N (r2 (w - rr)), N (r2 h),
       S ''L'', N (r2 rr), N (r2 h),
       S ''C'', N (r2 (rr - kk)), N (r2 h), N 0, N (r2 (h - rr + kk)), N 0, N (r2 (h - rr)),
       S ''L'', N 0, N (r2 rr),
       S ''C'', N 0, N (r2 (rr - kk)), N (r2 (rr - kk)), N 0, N (r2 rr), N 0,
       S ''Z''])"

text \<open>The effective radius: \<^verbatim>\<open>Math.min(cr, w / 2, h / 2)\<close>.\<close>

definition clampRadius :: "real \<Rightarrow> real \<Rightarrow> real \<Rightarrow> real" where
  "clampRadius cr w h = min cr (min (w / 2) (h / 2))"

definition generateShapePath :: "ClipShape option \<Rightarrow> real \<Rightarrow> real \<Rightarrow> string option" where
  "generateShapePath clipShape w h =
     (case clipShape of
        None \<Rightarrow> None
      | Some cs \<Rightarrow>
          (case cs_type cs of
             Ellipse \<Rightarrow> Some (joinSp (map tokStr (ellipseTokens w h)))
           | Rect \<Rightarrow>
               (let cr = (case cornerRadius cs of None \<Rightarrow> 0 | Some c \<Rightarrow> c) in
                if cr \<le> 0 then Some (plainRectPath w h)
                else Some (joinSp (map tokStr (roundedRectTokens w h (clampRadius cr w h)))))
           | Unknown \<Rightarrow> None))"

text \<open>How often a command letter occurs in a path string.\<close>

definition commandCount :: "char \<Rightarrow> string \<Rightarrow> nat" where
  "commandCount c d = count_list d c"

subsection \<open>Name normalisation\<close>

text \<open>\<^verbatim>\<open>norm\<close>: lower case, then every run of \<^verbatim>\<open>[\s\-_]\<close> removed.\<close>

definition normStr :: "string \<Rightarrow> string" where
  "normStr s = filter (\<lambda>c. \<not> isSeparator c) (toLowerCase s)"

definition styleTokens :: "string list" where
  "styleTokens =
     [''bold'', ''italic'', ''light'', ''medium'', ''thin'', ''heavy'', ''regular'',
      ''semibold'', ''black'', ''condensed'', ''oblique'', ''book'', ''demi'', ''ultra'',
      ''extra'', ''narrow'']"

text \<open>
  The alternation of the style pattern at the start of \<open>s\<close>, compared without regard to
  case (flag \<^verbatim>\<open>i\<close>): the rest of \<open>s\<close> behind the first alternative that matches.
\<close>

definition matchToken :: "string \<Rightarrow> string option" where
  "matchToken s =
     (case find (\<lambda>t. toLowerCase (take (length t) s) = t) styleTokens of
        None \<Rightarrow> None
      | Some t \<Rightarrow> Some (drop (length t) s))"

text \<open>
  One match of \<^verbatim>\<open>[\s\-]*(bold|...|narrow)[\s\-]*\<close> at the start of \<open>s\<close>: both
  stars are greedy, and giving back a separator never helps since no alternative starts
  with one. The result is the text behind the match.
\<close>

definition matchStyle :: "string \<Rightarrow> string option" where
  "matchStyle s =
     (case matchToken (dropWhile isSpaceHyphen s) of
        None \<Rightarrow> None
      | Some r \<Rightarrow> Some (dropWhile isSpaceHyphen r))"

lemma matchToken_shorter:
  assumes "matchToken s = Some r"
  shows "length r < length s"
proof -
  from assms obtain t where f: "find (\<lambda>t. toLowerCase (take (length t) s) = t) styleTokens = Some t"
    and r: "r = drop (length t) s"
    by (auto simp: matchToken_def split: option.splits)
  from f have mem: "t \<in> set styleTokens" and eq: "toLowerCase (take (length t) s) = t"
    by (auto simp: find_Some_iff)
  from mem have ne: "t \<noteq> []"
    by (auto simp: styleTokens_def)
  from eq have "length (take (length t) s) = length t"
    by (metis length_map toLowerCase_def)
  then have "length t \<le> length s"
    by simp
  moreover from ne have "0 < length t"
    by simp
  ultimately have "length s - length t < length s"
    by arith
  then show ?thesis
    unfolding r by simp
qed

lemma matchStyle_shorter:
  assumes "matchStyle s = Some r"
  shows "length r < length s"
proof -
  from assms obtain q where q: "matchToken (dropWhile isSpaceHyphen s) = Some q"
    and r: "r = dropWhile isSpaceHyphen q"
    by (auto simp: matchStyle_def split: option.splits)
  have "length r \<le> length q"
    unfolding r by (rule length_dropWhile_le)
  also have "length q < length (dropWhile isSpaceHyphen s)"
    using q by (rule matchToken_shorter)
  also have "\<dots> \<le> length s"
    by (rule length_dropWhile_le)
  finally show ?thesis .
qed

text \<open>
  The global replacement of the style pattern by one space: at each position the
  leftmost match is replaced and the scan goes on behind it; where nothing matches the
  code unit is kept.
\<close>

function replaceStyle :: "string \<Rightarrow> string" where
  "replaceStyle [] = []"
| "replaceStyle (c # cs) =
     (case matchStyle (c # cs) of
        Some r \<Rightarrow> CHR '' '' # replaceStyle r
      | None \<Rightarrow> c # replaceStyle cs)"
  by pat_completeness auto
termination
  by (relation "measure length") (auto dest: matchStyle_shorter)

definition stripStyle :: "string \<Rightarrow> string" where
  "stripStyle s = trim (filter (\<lambda>c. \<not> isSeparator c) (replaceStyle (toLowerCase s)))"

subsection \<open>findCanvaFont\<close>

type_synonym FontRef = string

text \<open>
  The catalog: \<open>rawC\<close> maps the lower-case display name to the font reference, \<open>normC\<close>
  the normalised and the style-stripped names. Both are JavaScript maps; \<open>rawC\<close> is
  iterated in insertion order, so both are association lists, looked up with \<^const>\<open>map_of\<close>.
\<close>

type_synonym FontCatalog = "(string \<times> FontRef) list"

text \<open>Tiers 1 to 3: equality of the lower-case, the normalised and the style-stripped name.\<close>

definition equalityTiers ::
  "string \<Rightarrow> string \<Rightarrow> string \<Rightarrow> FontCatalog \<Rightarrow> FontCatalog \<Rightarrow> FontRef option" where
  "equalityTiers lower normalized stripped rawC normC =
     (case map_of rawC lower of
        Some r \<Rightarrow> Some r
      | None \<Rightarrow>
          (case map_of normC normalized of
             Some r \<Rightarrow> Some r
           | None \<Rightarrow>
               (if stripped \<noteq> [] \<and> stripped \<noteq> normalized then map_of normC stripped
                else None)))"

text \<open>Tier 4: the loop over \<open>rawC\<close> that compares normalised names by containment.\<close>

fun tier4 :: "string \<Rightarrow> FontCatalog \<Rightarrow> FontRef option" where
  "tier4 normalized [] = None"
| "tier4 normalized ((canvaLower, ref) # rest) =
     (let canvaNorm = normStr canvaLower in
      if length canvaNorm \<ge> 4 \<and> length normalized \<ge> 4 \<and>
         (includesStr normalized canvaNorm \<or> includesStr canvaNorm normalized)
      then Some ref
      else tier4 normalized rest)"

text \<open>Tier 5: the loop over \<open>rawC\<close> that compares style-stripped names by containment.\<close>

fun tier5loop :: "string \<Rightarrow> FontCatalog \<Rightarrow> FontRef option" where
  "tier5loop stripped [] = None"
| "tier5loop stripped ((canvaLower, ref) # rest) =
     (let canvaStripped = stripStyle canvaLower in
      if canvaStripped \<noteq> [] \<and> length canvaStripped \<ge> 4 \<and>
         (includesStr stripped canvaStripped \<or> includesStr canvaStripped stripped)
      then Some ref
      else tier5loop stripped rest)"

definition tier5 :: "string \<Rightarrow> FontCatalog \<Rightarrow> FontRef option" where
  "tier5 stripped rawC =
     (if stripped \<noteq> [] \<and> length stripped \<ge> 4 then tier5loop stripped rawC else None)"

definition findCanvaFont :: "string \<Rightarrow> FontCatalog \<Rightarrow> FontCatalog \<Rightarrow> FontRef option" where
  "findCanvaFont fontFamily rawC normC =
     (if fontFamily = [] \<or> rawC = [] then None
      else
        (let lower = trim (toLowerCase fontFamily);
             normalized = normStr fontFamily;
             stripped = stripStyle fontFamily
         in case equalityTiers lower normalized stripped rawC normC of
              Some r \<Rightarrow> Some r
            | None \<Rightarrow>
                (case tier4 normalized rawC of
                   Some r \<Rightarrow> Some r
                 | None \<Rightarrow> tier5 stripped rawC)))"

subsection \<open>Font resolution: automatic, cache, ask\<close>

datatype FontChoice = Font FontRef | UseSvg

text \<open>
  The part of the component's state that font resolution touches: the cache of the
  user's choices (\<^verbatim>\<open>userFontChoicesRef.current\<close>), whether a resolver of a pending
  prompt is held (\<^verbatim>\<open>pendingFontResolve\<close>), and the family the prompt shows
  (\<^verbatim>\<open>pendingFontName\<close>).
\<close>

record FontState =
  userFontChoices :: "string \<rightharpoonup> FontChoice"
  pendingFontResolve :: bool
  pendingFontName :: string

text \<open>\<^verbatim>\<open>askUserForFont\<close> creates the prompt; its promise settles when a handler runs.\<close>

definition askUserForFont :: "string \<Rightarrow> FontState \<Rightarrow> FontState" where
  "askUserForFont fontFamily st = st\<lparr>pendingFontName := fontFamily, pendingFontResolve := True\<rparr>"

text \<open>What \<^verbatim>\<open>resolveFontRef\<close> reaches before any user action: a choice, or a prompt.\<close>

datatype Resolution = Resolved FontChoice | Prompted

definition resolveFontRef ::
  "string \<Rightarrow> FontCatalog \<Rightarrow> FontCatalog \<Rightarrow> FontState \<Rightarrow> Resolution \<times> FontState" where
  "resolveFontRef fontFamily rawC normC st =
     (case findCanvaFont fontFamily rawC normC of
        Some autoRef \<Rightarrow> (Resolved (Font autoRef), st)
      | None \<Rightarrow>
          (case userFontChoices st (toLowerCase fontFamily) of
             Some cached \<Rightarrow> (Resolved cached, st)
           | None \<Rightarrow> (Prompted, askUserForFont fontFamily st)))"

text \<open>The outcome of \<^verbatim>\<open>requestFontSelection()\<close>: completed with a font, anything else
  (the user cancelled), or an exception.\<close>

datatype PickerResult = Completed FontRef | Cancelled | PickerThrew

definition clearPending :: "FontState \<Rightarrow> FontState" where
  "clearPending st = st\<lparr>pendingFontResolve := False, pendingFontName := []\<rparr>"

definition cacheChoice :: "string \<Rightarrow> FontChoice \<Rightarrow> FontState \<Rightarrow> FontState" where
  "cacheChoice fontName choice st =
     st\<lparr>userFontChoices := (userFontChoices st)(toLowerCase fontName \<mapsto> choice)\<rparr>"

text \<open>
  The handlers return what they resolve the pending promise with (\<open>None\<close> when no
  promise is pending and the handler returns at once) and the new state.
\<close>

definition handlePickFont :: "PickerResult \<Rightarrow> FontState \<Rightarrow> FontChoice option \<times> FontState" where
  "handlePickFont result st =
     (if \<not> pendingFontResolve st then (None, st)
      else
        (let fontName = pendingFontName st in
         case result of
           Completed ref \<Rightarrow> (Some (Font ref), clearPending (cacheChoice fontName (Font ref) st))
         | Cancelled \<Rightarrow> (Some UseSvg, clearPending (cacheChoice fontName UseSvg st))
         | PickerThrew \<Rightarrow> (Some UseSvg, clearPending st)))"

definition handleUseSvg :: "FontState \<Rightarrow> FontChoice option \<times> FontState" where
  "handleUseSvg st =
     (if \<not> pendingFontResolve st then (None, st)
      else
        (let fontName = pendingFontName st in
         (Some UseSvg, clearPending (cacheChoice fontName UseSvg st))))"

text \<open>The two buttons of the prompt.\<close>

datatype UserAction = PickFont PickerResult | UseSvgButton

fun userActs :: "UserAction \<Rightarrow> FontState \<Rightarrow> FontChoice option \<times> FontState" where
  "userActs (PickFont result) st = handlePickFont result st"
| "userActs UseSvgButton st = handleUseSvg st"

text \<open>
  One awaited call of \<^verbatim>\<open>resolveFontRef\<close>, the user answering a prompt with \<open>act\<close>:
  the value of the promise, the state afterwards, and whether a prompt was shown.
\<close>

definition resolveAwait ::
  "UserAction \<Rightarrow> string \<Rightarrow> FontCatalog \<Rightarrow> FontCatalog \<Rightarrow> FontState
     \<Rightarrow> FontChoice option \<times> FontState \<times> bool" where
  "resolveAwait act fontFamily rawC normC st =
     (case resolveFontRef fontFamily rawC normC st of
        (Resolved choice, st') \<Rightarrow> (Some choice, st', False)
      | (Prompted, st') \<Rightarrow>
          (case userActs act st' of (choice, st'') \<Rightarrow> (choice, st'', True)))"

subsection \<open>The layout\<close>

record TextData =
  td_content :: string
  td_fontFamily :: string
  td_fontPostScriptName :: "string option"
  td_fontSize :: real
  td_fontWeight :: "string option"
  td_fontStyle :: string
  td_color :: "string option"
  td_alignment :: string
  td_lineHeight :: real
  td_letterSpacing :: real
  td_textDecoration :: string

record StrokeBounds =
  sb_x :: real
  sb_y :: real
  sb_width :: real
  sb_height :: real

datatype ObjType = Svg | Png | TextType | ClipMask

text \<open>
  A field the code reads with \<^verbatim>\<open>??\<close>, \<^verbatim>\<open>?.\<close>, \<^verbatim>\<open>||\<close> or \<^verbatim>\<open>!== undefined\<close> is an
  option, whatever the declared type says: the layout is parsed JSON and unchecked.
\<close>

record LayoutObject =
  lo_index :: real
  lo_fileName :: string
  lo_contentFileName :: "string option"
  lo_strokeFileName :: "string option"
  lo_strokeBounds :: "StrokeBounds option"
  lo_type :: ObjType
  lo_objectType :: string
  lo_x :: real
  lo_y :: real
  lo_width :: real
  lo_height :: real
  lo_zIndex :: "real option"
  lo_opacity :: "real option"
  lo_textData :: "TextData option"
  lo_textSvgFileName :: "string option"
  lo_clipShape :: "ClipShape option"

subsection \<open>Paint order\<close>

text \<open>The key of the comparator: \<^verbatim>\<open>a.zIndex ?? a.index\<close>.\<close>

definition zKey :: "LayoutObject \<Rightarrow> real" where
  "zKey a = (case lo_zIndex a of Some z \<Rightarrow> z | None \<Rightarrow> lo_index a)"

definition compareZ :: "LayoutObject \<Rightarrow> LayoutObject \<Rightarrow> real" where
  "compareZ a b = zKey a - zKey b"

text \<open>
  \<^verbatim>\<open>Array.prototype.sort\<close> with a comparator is a stable sort (ECMAScript 2019). For a
  consistent comparator every stable sort returns the same array; the model is the
  insertion sort that puts an element before the first one it does not exceed, the
  elements taken from the right.
\<close>

fun insertBy :: "('a \<Rightarrow> 'a \<Rightarrow> real) \<Rightarrow> 'a \<Rightarrow> 'a list \<Rightarrow> 'a list" where
  "insertBy cmp a [] = [a]"
| "insertBy cmp a (b # bs) = (if cmp a b \<le> 0 then a # b # bs else b # insertBy cmp a bs)"

definition sortBy :: "('a \<Rightarrow> 'a \<Rightarrow> real) \<Rightarrow> 'a list \<Rightarrow> 'a list" where
  "sortBy cmp xs = foldr (insertBy cmp) xs []"

definition sortObjects :: "LayoutObject list \<Rightarrow> LayoutObject list" where
  "sortObjects objects = sortBy compareZ objects"

subsection \<open>Scene elements\<close>

type_synonym ImageRef = string

record AltText =
  alt_text :: string
  alt_decorative :: bool

record ImageElement =
  im_ref :: ImageRef
  im_top :: real
  im_left :: real
  im_width :: real
  im_height :: real
  im_altText :: AltText

text \<open>
  What reading a property of an object literal can give: a string the literal holds, or
  a member the literal inherits from \<^verbatim>\<open>Object.prototype\<close> (a function, or the prototype
  itself under \<^verbatim>\<open>__proto__\<close>), named here by its key.
\<close>

datatype JsValue = Str string | Inherited string

text \<open>\<open>tx_decoration\<close> and \<open>tx_fontRef\<close> are absent from the element of the last branch.
  Weight and alignment hold whatever the table lookup gave.\<close>

record TextElement =
  tx_children :: "string list"
  tx_top :: real
  tx_left :: real
  tx_width :: int
  tx_fontSize :: int
  tx_color :: string
  tx_fontWeight :: JsValue
  tx_fontStyle :: string
  tx_textAlign :: JsValue
  tx_decoration :: "string option"
  tx_fontRef :: "FontRef option"

text \<open>A shape with one path, filled with an image asset; the view box starts at (0, 0).\<close>

record ShapeElement =
  sh_d :: string
  sh_dropTarget :: bool
  sh_fillRef :: ImageRef
  sh_viewBoxWidth :: real
  sh_viewBoxHeight :: real
  sh_top :: real
  sh_left :: real
  sh_width :: real
  sh_height :: real

record Box =
  box_top :: real
  box_left :: real
  box_width :: real
  box_height :: real

datatype Element =
    Image ImageElement
  | Text TextElement
  | Shape ShapeElement
  | Group "Element list" Box

subsection \<open>Compiling one object\<close>

definition FONT_WEIGHT_MAP :: "(string \<times> string) list" where
  "FONT_WEIGHT_MAP =
     [(''normal'', ''normal''), (''thin'', ''thin''), (''extralight'', ''extralight''),
      (''light'', ''light''), (''medium'', ''medium''), (''semibold'', ''semibold''),
      (''bold'', ''bold''), (''ultrabold'', ''ultrabold''), (''heavy'', ''heavy''),
      (''black'', ''heavy'')]"

definition TEXT_ALIGN_MAP :: "(string \<times> string) list" where
  "TEXT_ALIGN_MAP =
     [(''left'', ''start''), (''center'', ''center''), (''right'', ''end''),
      (''justify'', ''justify'')]"

definition TEXT_WIDTH_PADDING :: real where
  "TEXT_WIDTH_PADDING = 115 / 100"

text \<open>
  Both tables are object literals, so \<^verbatim>\<open>TABLE[key]\<close> finds the literal's own keys and,
  for any other key, the members of \<^verbatim>\<open>Object.prototype\<close> (ECMAScript, with the
  accessors of its Annex B).
\<close>

definition OBJECT_PROTOTYPE_KEYS :: "string list" where
  "OBJECT_PROTOTYPE_KEYS =
     [''constructor'', ''__defineGetter__'', ''__defineSetter__'', ''hasOwnProperty'',
      ''__lookupGetter__'', ''__lookupSetter__'', ''isPrototypeOf'', ''propertyIsEnumerable'',
      ''toString'', ''valueOf'', ''__proto__'', ''toLocaleString'']"

definition getProperty :: "(string \<times> string) list \<Rightarrow> string \<Rightarrow> JsValue option" where
  "getProperty table key =
     (case map_of table key of
        Some v \<Rightarrow> Some (Str v)
      | None \<Rightarrow> if key \<in> set OBJECT_PROTOTYPE_KEYS then Some (Inherited key) else None)"

text \<open>\<^verbatim>\<open>v || d\<close>: \<^verbatim>\<open>undefined\<close> and the empty string are falsy, an inherited member is
  truthy.\<close>

definition orDefault :: "JsValue option \<Rightarrow> string \<Rightarrow> JsValue" where
  "orDefault v d =
     (case v of
        None \<Rightarrow> Str d
      | Some (Str s) \<Rightarrow> if s = [] then Str d else Str s
      | Some (Inherited k) \<Rightarrow> Inherited k)"

text \<open>\<^verbatim>\<open>td.fontWeight?.toLowerCase()\<close> of a missing weight is \<^verbatim>\<open>undefined\<close>, which as a
  property key is the string \<^verbatim>\<open>"undefined"\<close>.\<close>

definition fontWeightOf :: "string option \<Rightarrow> JsValue" where
  "fontWeightOf fw =
     orDefault
       (getProperty FONT_WEIGHT_MAP
          (case fw of None \<Rightarrow> ''undefined'' | Some w \<Rightarrow> toLowerCase w))
       ''normal''"

definition textAlignOf :: "string \<Rightarrow> JsValue" where
  "textAlignOf a = orDefault (getProperty TEXT_ALIGN_MAP a) ''start''"

definition clampFontSize :: "real \<Rightarrow> int" where
  "clampFontSize fs = max 1 (min 100 (mathRound fs))"

text \<open>The fields the two text branches share.\<close>

definition textElement :: "LayoutObject \<Rightarrow> TextData \<Rightarrow> TextElement" where
  "textElement obj td =
     \<lparr>tx_children = [td_content td],
      tx_top = lo_y obj, tx_left = lo_x obj,
      tx_width = mathCeil (lo_width obj * TEXT_WIDTH_PADDING),
      tx_fontSize = clampFontSize (td_fontSize td),
      tx_color = (case truthy (td_color td) of Some c \<Rightarrow> c | None \<Rightarrow> ''#000000''),
      tx_fontWeight = fontWeightOf (td_fontWeight td),
      tx_fontStyle = (if td_fontStyle td = ''italic'' then ''italic'' else ''normal''),
      tx_textAlign = textAlignOf (td_alignment td),
      tx_decoration = None,
      tx_fontRef = None\<rparr>"

definition imageElement :: "ImageRef \<Rightarrow> LayoutObject \<Rightarrow> string \<Rightarrow> ImageElement" where
  "imageElement ref obj alt =
     \<lparr>im_ref = ref, im_top = lo_y obj, im_left = lo_x obj,
      im_width = lo_width obj, im_height = lo_height obj,
      im_altText = \<lparr>alt_text = alt, alt_decorative = False\<rparr>\<rparr>"

definition frameElement :: "string \<Rightarrow> ImageRef \<Rightarrow> LayoutObject \<Rightarrow> ShapeElement" where
  "frameElement pathD contentRef obj =
     \<lparr>sh_d = pathD, sh_dropTarget = True, sh_fillRef = contentRef,
      sh_viewBoxWidth = lo_width obj, sh_viewBoxHeight = lo_height obj,
      sh_top = lo_y obj, sh_left = lo_x obj,
      sh_width = lo_width obj, sh_height = lo_height obj\<rparr>"

text \<open>Which counter of the log an emitted element adds to.\<close>

datatype Kind = FrameKind | SvgTextKind | PlainKind

text \<open>
  The frame of a clipping mask, alone or grouped with its stroke image: with the
  stroke's bounds the group has their box and the frame is moved by the difference of
  the origins; without them stroke and frame share the object's box.
\<close>

definition frameWithStroke ::
  "(string \<rightharpoonup> ImageRef) \<Rightarrow> LayoutObject \<Rightarrow> ShapeElement \<Rightarrow> Element" where
  "frameWithStroke imageRefs obj frame =
     (let strokeRef = (case truthy (lo_strokeFileName obj) of
                         Some f \<Rightarrow> imageRefs f
                       | None \<Rightarrow> None)
      in case strokeRef of
           None \<Rightarrow> Shape frame
         | Some sref \<Rightarrow>
             (case lo_strokeBounds obj of
                Some sb \<Rightarrow>
                  Group
                    [Image \<lparr>im_ref = sref, im_top = 0, im_left = 0,
                            im_width = sb_width sb, im_height = sb_height sb,
                            im_altText = \<lparr>alt_text = ''effects'', alt_decorative = True\<rparr>\<rparr>,
                     Shape (frame\<lparr>sh_top := lo_y obj - sb_y sb, sh_left := lo_x obj - sb_x sb,
                                  sh_width := lo_width obj, sh_height := lo_height obj\<rparr>)]
                    \<lparr>box_top = sb_y sb, box_left = sb_x sb,
                     box_width = sb_width sb, box_height = sb_height sb\<rparr>
              | None \<Rightarrow>
                  Group
                    [Shape (frame\<lparr>sh_top := 0, sh_left := 0\<rparr>),
                     Image \<lparr>im_ref = sref, im_top = 0, im_left = 0,
                            im_width = lo_width obj, im_height = lo_height obj,
                            im_altText = \<lparr>alt_text = ''stroke'', alt_decorative = True\<rparr>\<rparr>]
                    \<lparr>box_top = lo_y obj, box_left = lo_x obj,
                     box_width = lo_width obj, box_height = lo_height obj\<rparr>))"

text \<open>The branch of a clipping mask; \<open>None\<close> is \<^verbatim>\<open>continue\<close>.\<close>

definition emitClipMask :: "(string \<rightharpoonup> ImageRef) \<Rightarrow> LayoutObject \<Rightarrow> (Element \<times> Kind) option" where
  "emitClipMask imageRefs obj =
     (let contentFile = (case truthy (lo_contentFileName obj) of
                           Some f \<Rightarrow> f
                         | None \<Rightarrow> lo_fileName obj)
      in case imageRefs contentFile of
           None \<Rightarrow> None
         | Some contentRef \<Rightarrow>
             (case truthy (generateShapePath (lo_clipShape obj) (lo_width obj) (lo_height obj)) of
                Some pathD \<Rightarrow>
                  Some (frameWithStroke imageRefs obj (frameElement pathD contentRef obj), FrameKind)
              | None \<Rightarrow>
                  (case imageRefs (lo_fileName obj) of
                     Some fallbackRef \<Rightarrow> Some (Image (imageElement fallbackRef obj ''clipped''), PlainKind)
                   | None \<Rightarrow> None)))"

text \<open>The branch of a text object that has its text data: it always pushes an element.\<close>

definition emitText ::
  "(string \<rightharpoonup> ImageRef) \<Rightarrow> (string \<rightharpoonup> FontChoice) \<Rightarrow> LayoutObject \<Rightarrow> TextData
     \<Rightarrow> Element \<times> Kind" where
  "emitText imageRefs resolvedFonts obj td =
     (case resolvedFonts (td_fontFamily td) of
        Some (Font fontResult) \<Rightarrow>
          (Text ((textElement obj td)
                   \<lparr>tx_decoration :=
                      Some (if td_textDecoration td = ''underline'' then ''underline'' else ''none''),
                    tx_fontRef := Some fontResult\<rparr>),
           PlainKind)
      | _ \<Rightarrow>
          (case (case truthy (lo_textSvgFileName obj) of Some f \<Rightarrow> imageRefs f | None \<Rightarrow> None) of
             Some svgRef \<Rightarrow> (Image (imageElement svgRef obj (take 30 (td_content td))), SvgTextKind)
           | None \<Rightarrow> (Text (textElement obj td), PlainKind)))"

text \<open>The last branch, a plain image; \<open>None\<close> is \<^verbatim>\<open>continue\<close>.\<close>

definition emitImage :: "(string \<rightharpoonup> ImageRef) \<Rightarrow> LayoutObject \<Rightarrow> (Element \<times> Kind) option" where
  "emitImage imageRefs obj =
     (case imageRefs (lo_fileName obj) of
        None \<Rightarrow> None
      | Some ref \<Rightarrow> Some (Image (imageElement ref obj (lo_fileName obj)), PlainKind))"

text \<open>
  The body of the loop up to the push: the element an object contributes, or \<open>None\<close>
  when the body leaves with \<^verbatim>\<open>continue\<close> before pushing.
\<close>

definition emitObject ::
  "(string \<rightharpoonup> ImageRef) \<Rightarrow> (string \<rightharpoonup> FontChoice) \<Rightarrow> LayoutObject
     \<Rightarrow> (Element \<times> Kind) option" where
  "emitObject imageRefs resolvedFonts obj =
     (if lo_type obj = ClipMask then emitClipMask imageRefs obj
      else
        (case (if lo_type obj = TextType then lo_textData obj else None) of
           Some td \<Rightarrow> Some (emitText imageRefs resolvedFonts obj td)
         | None \<Rightarrow> emitImage imageRefs obj))"

subsection \<open>The compile loop\<close>

record OpacityAssignment =
  elementIndex :: nat
  opacity :: real

record CompileState =
  elements :: "Element list"
  opacityMap :: "OpacityAssignment list"
  elementIdx :: nat
  svgCount :: nat
  frameCount :: nat

definition initialState :: CompileState where
  "initialState = \<lparr>elements = [], opacityMap = [], elementIdx = 0, svgCount = 0, frameCount = 0\<rparr>"

text \<open>\<^verbatim>\<open>elements.push(el)\<close> and the counter of the log.\<close>

definition pushElement :: "Element \<Rightarrow> Kind \<Rightarrow> CompileState \<Rightarrow> CompileState" where
  "pushElement el k st =
     st\<lparr>elements := elements st @ [el],
        svgCount := svgCount st + (if k = SvgTextKind then 1 else 0),
        frameCount := frameCount st + (if k = FrameKind then 1 else 0)\<rparr>"

text \<open>
  The end of the loop body, written twice in the source (once in the mask branch, once
  behind the text and image branches): record the opacity, then advance the counter.
\<close>

definition recordOpacity :: "LayoutObject \<Rightarrow> CompileState \<Rightarrow> CompileState" where
  "recordOpacity obj st =
     st\<lparr>opacityMap :=
          (case lo_opacity obj of
             Some op \<Rightarrow>
               (if op < 1 then opacityMap st @ [\<lparr>elementIndex = elementIdx st, opacity = op\<rparr>]
                else opacityMap st)
           | None \<Rightarrow> opacityMap st),
        elementIdx := elementIdx st + 1\<rparr>"

definition compileStep ::
  "(string \<rightharpoonup> ImageRef) \<Rightarrow> (string \<rightharpoonup> FontChoice) \<Rightarrow> CompileState \<Rightarrow> LayoutObject
     \<Rightarrow> CompileState" where
  "compileStep imageRefs resolvedFonts st obj =
     (case emitObject imageRefs resolvedFonts obj of
        None \<Rightarrow> st
      | Some (el, k) \<Rightarrow> recordOpacity obj (pushElement el k st))"

definition compileObjects ::
  "(string \<rightharpoonup> ImageRef) \<Rightarrow> (string \<rightharpoonup> FontChoice) \<Rightarrow> LayoutObject list \<Rightarrow> CompileState" where
  "compileObjects imageRefs resolvedFonts sortedObjs =
     foldl (compileStep imageRefs resolvedFonts) initialState sortedObjs"

text \<open>Step 3 of \<^verbatim>\<open>handleImportLayout\<close>, on the objects in paint order.\<close>

definition compileLayout ::
  "(string \<rightharpoonup> ImageRef) \<Rightarrow> (string \<rightharpoonup> FontChoice) \<Rightarrow> LayoutObject list \<Rightarrow> CompileState" where
  "compileLayout imageRefs resolvedFonts objects =
     compileObjects imageRefs resolvedFonts (sortObjects objects)"

subsection \<open>Page creation with retries\<close>

text \<open>One call of \<^verbatim>\<open>addPage\<close>: success, or an exception with its \<^verbatim>\<open>String(err)\<close>.\<close>

datatype AddPageResult = PageOk | PageErr string

definition isRateLimit :: "string \<Rightarrow> bool" where
  "isRateLimit s = (includesStr s ''rate_limit'' \<or> includesStr s ''RATE_LIMITED'')"

datatype PageOutcome = Created | Fatal string

text \<open>What a run of the loop did: how it ended, how many calls it made, and the
  delays it waited, in milliseconds.\<close>

record PageRun =
  pr_outcome :: PageOutcome
  pr_attempts :: nat
  pr_delays :: "nat list"

text \<open>
  The loop \<^verbatim>\<open>for (let att = 1; att <= 5; att++)\<close>; \<open>addPage att\<close> is what the call of
  attempt \<open>att\<close> does. \<^verbatim>\<open>break\<close> and \<^verbatim>\<open>throw\<close> end the run. The loop condition never fails
  on a run from \<open>att = 1\<close>; if it did, the code would go on as after a \<^verbatim>\<open>break\<close>.
\<close>

function createPageLoop :: "(nat \<Rightarrow> AddPageResult) \<Rightarrow> nat \<Rightarrow> nat \<Rightarrow> nat list \<Rightarrow> PageRun" where
  "createPageLoop addPage att delay waited =
     (if att \<le> 5 then
        (case addPage att of
           PageOk \<Rightarrow> \<lparr>pr_outcome = Created, pr_attempts = att, pr_delays = waited\<rparr>
         | PageErr s \<Rightarrow>
             (if isRateLimit s \<and> att < 5
              then createPageLoop addPage (att + 1) (delay * 2) (waited @ [delay])
              else \<lparr>pr_outcome = Fatal s, pr_attempts = att, pr_delays = waited\<rparr>))
      else \<lparr>pr_outcome = Created, pr_attempts = att - 1, pr_delays = waited\<rparr>)"
  by pat_completeness auto
termination
  by (relation "measure (\<lambda>(addPage, att, delay, waited). 6 - att)") auto

declare createPageLoop.simps [simp del]

definition baseDelay :: nat where
  "baseDelay = 3000"

definition createPage :: "(nat \<Rightarrow> AddPageResult) \<Rightarrow> PageRun" where
  "createPage addPage = createPageLoop addPage 1 baseDelay []"

subsection \<open>The bookkeeping, as the specification words it\<close>

text \<open>
  The reference for the bookkeeping, in the words of the specification: the objects
  that are not skipped, the elements they contribute in order, and for each of them
  with an opacity below 1 an assignment whose index is the object's position among
  the objects that are not skipped.
\<close>

definition nonSkipped ::
  "(string \<rightharpoonup> ImageRef) \<Rightarrow> (string \<rightharpoonup> FontChoice) \<Rightarrow> LayoutObject list \<Rightarrow> LayoutObject list" where
  "nonSkipped imageRefs resolvedFonts objs =
     filter (\<lambda>obj. emitObject imageRefs resolvedFonts obj \<noteq> None) objs"

definition spec_elements ::
  "(string \<rightharpoonup> ImageRef) \<Rightarrow> (string \<rightharpoonup> FontChoice) \<Rightarrow> LayoutObject list \<Rightarrow> Element list" where
  "spec_elements imageRefs resolvedFonts objs =
     map (\<lambda>obj. fst (the (emitObject imageRefs resolvedFonts obj)))
       (nonSkipped imageRefs resolvedFonts objs)"

definition spec_assignment :: "nat \<Rightarrow> LayoutObject \<Rightarrow> OpacityAssignment list" where
  "spec_assignment i obj =
     (case lo_opacity obj of
        Some op \<Rightarrow> if op < 1 then [\<lparr>elementIndex = i, opacity = op\<rparr>] else []
      | None \<Rightarrow> [])"

definition spec_opacityMap ::
  "(string \<rightharpoonup> ImageRef) \<Rightarrow> (string \<rightharpoonup> FontChoice) \<Rightarrow> LayoutObject list
     \<Rightarrow> OpacityAssignment list" where
  "spec_opacityMap imageRefs resolvedFonts objs =
     concat (map (\<lambda>(i, obj). spec_assignment i obj)
       (enumerate 0 (nonSkipped imageRefs resolvedFonts objs)))"

subsection \<open>Sample data\<close>

text \<open>An image object with the given index and z-index, for the examples.\<close>

definition imageObject :: "real \<Rightarrow> real option \<Rightarrow> LayoutObject" where
  "imageObject i z =
     \<lparr>lo_index = i, lo_fileName = ''a.svg'', lo_contentFileName = None,
      lo_strokeFileName = None, lo_strokeBounds = None, lo_type = Svg,
      lo_objectType = ''PathItem'', lo_x = 0, lo_y = 0, lo_width = 10, lo_height = 10,
      lo_zIndex = z, lo_opacity = Some 1, lo_textData = None, lo_textSvgFileName = None,
      lo_clipShape = None\<rparr>"

text \<open>A text object and its text data, for the examples.\<close>

definition sampleText :: TextData where
  "sampleText =
     \<lparr>td_content = ''Hello'', td_fontFamily = ''Foo Sans'', td_fontPostScriptName = None,
      td_fontSize = 2504 / 10, td_fontWeight = Some ''Wacky'', td_fontStyle = ''italic'',
      td_color = None, td_alignment = ''weird'', td_lineHeight = 12 / 10,
      td_letterSpacing = 0, td_textDecoration = ''underline''\<rparr>"

definition textObject :: "TextData option \<Rightarrow> string option \<Rightarrow> LayoutObject" where
  "textObject td svg =
     \<lparr>lo_index = 0, lo_fileName = ''t.svg'', lo_contentFileName = None,
      lo_strokeFileName = None, lo_strokeBounds = None, lo_type = TextType,
      lo_objectType = ''TextFrame'', lo_x = 10, lo_y = 20, lo_width = 100, lo_height = 30,
      lo_zIndex = Some 0, lo_opacity = Some (3 / 10), lo_textData = td,
      lo_textSvgFileName = svg, lo_clipShape = None\<rparr>"

text \<open>An ellipse mask of 200 by 200 with a stroke image whose bounds lie 10 outside.\<close>

definition maskObject :: LayoutObject where
  "maskObject =
     \<lparr>lo_index = 3, lo_fileName = ''m.png'', lo_contentFileName = Some ''c.png'',
      lo_strokeFileName = Some ''s.png'',
      lo_strokeBounds = Some \<lparr>sb_x = - 10, sb_y = - 10, sb_width = 220, sb_height = 220\<rparr>,
      lo_type = ClipMask, lo_objectType = ''GroupItem'', lo_x = 0, lo_y = 0,
      lo_width = 200, lo_height = 200, lo_zIndex = Some 3, lo_opacity = Some (8 / 10),
      lo_textData = None, lo_textSvgFileName = None,
      lo_clipShape = Some \<lparr>cs_type = Ellipse, cornerRadius = None\<rparr>\<rparr>"

definition sampleObjects :: "LayoutObject list" where
  "sampleObjects =
     [(imageObject 0 None)\<lparr>lo_opacity := Some (1 / 2)\<rparr>,
      textObject (Some sampleText) None,
      (imageObject 2 None)\<lparr>lo_fileName := ''b.png'', lo_opacity := None\<rparr>,
      maskObject]"

definition sampleRefs :: "string \<rightharpoonup> ImageRef" where
  "sampleRefs = [''b.png'' \<mapsto> ''img:b'', ''c.png'' \<mapsto> ''img:c'', ''s.png'' \<mapsto> ''img:s'']"

text \<open>The state before any font was asked for.\<close>

definition freshState :: FontState where
  "freshState = \<lparr>userFontChoices = Map.empty, pendingFontResolve = False, pendingFontName = []\<rparr>"

lemmas sample_eval =
  sampleText_def textObject_def imageObject_def maskObject_def sampleObjects_def sampleRefs_def
  fontWeightOf_def FONT_WEIGHT_MAP_def textAlignOf_def TEXT_ALIGN_MAP_def mathRound_def
  toLowerCase_def lowerChar_def getProperty_def orDefault_def OBJECT_PROTOTYPE_KEYS_def

section \<open>Properties\<close>

subsection \<open>Shape paths\<close>

text \<open>A rendered number consists of digits, a sign and a decimal point only.\<close>

lemma digit_in_digits: "d < 10 \<Longrightarrow> digit d \<in> set ''0123456789''"
  unfolding digit_def by (rule nth_mem) simp

lemma natStr_digits: "set (natStr n) \<subseteq> set ''0123456789''"
proof (induction n rule: natStr.induct)
  case (1 n)
  show ?case
  proof (cases "n < 10")
    case True
    then show ?thesis
      using digit_in_digits[of n] by (subst natStr.simps) simp
  next
    case False
    have "digit (n mod 10) \<in> set ''0123456789''"
      by (rule digit_in_digits) simp
    with False 1 show ?thesis
      by (subst natStr.simps) simp
  qed
qed

lemma numStr_chars: "set (numStr v) \<subseteq> set ''-.0123456789''"
proof -
  have d: "digit (a mod 10) \<in> set ''0123456789''" for a
    by (rule digit_in_digits) simp
  have e: "digit (a mod 100 div 10) \<in> set ''0123456789''" for a
    by (rule digit_in_digits) (simp add: div_less_iff_less_mult)
  have n: "x \<in> set (natStr m) \<Longrightarrow> x \<in> set ''0123456789''" for x m
    using natStr_digits by blast
  show ?thesis
    unfolding numStr_def Let_def using d e
    by (auto dest!: n simp: mod_mod_cancel)
qed

lemma numStr_no_command:
  assumes "c \<in> set ''MLCZ ''"
  shows "count_list (numStr v) c = 0"
proof -
  from assms have "c \<notin> set ''-.0123456789''"
    by auto
  with numStr_chars have "c \<notin> set (numStr v)"
    by blast
  then show ?thesis
    by (simp add: count_list_0_iff)
qed

lemma count_joinSp:
  "c \<noteq> CHR '' '' \<Longrightarrow> count_list (joinSp ss) c = sum_list (map (\<lambda>s. count_list s c) ss)"
  by (induction ss rule: joinSp.induct) simp_all

lemma count_tok_S:
  "count_list (tokStr (S [d])) c = (if c = d then 1 else 0)"
  by simp

lemma count_tok_N:
  "c \<in> set ''MLCZ '' \<Longrightarrow> count_list (tokStr (N v)) c = 0"
  by (simp add: numStr_no_command)

lemma roundedRect_counts:
  "commandCount CHR ''M'' (joinSp (map tokStr (roundedRectTokens w h rr))) = 1"
  "commandCount CHR ''Z'' (joinSp (map tokStr (roundedRectTokens w h rr))) = 1"
  "commandCount CHR ''L'' (joinSp (map tokStr (roundedRectTokens w h rr))) = 4"
  "commandCount CHR ''C'' (joinSp (map tokStr (roundedRectTokens w h rr))) = 4"
  unfolding commandCount_def roundedRectTokens_def Let_def
  by (simp_all add: count_joinSp numStr_no_command)

lemma ellipse_counts:
  "commandCount CHR ''M'' (joinSp (map tokStr (ellipseTokens w h))) = 1"
  "commandCount CHR ''Z'' (joinSp (map tokStr (ellipseTokens w h))) = 1"
  "commandCount CHR ''L'' (joinSp (map tokStr (ellipseTokens w h))) = 0"
  "commandCount CHR ''C'' (joinSp (map tokStr (ellipseTokens w h))) = 4"
  unfolding commandCount_def ellipseTokens_def Let_def
  by (simp_all add: count_joinSp numStr_no_command)

lemma plainRect_counts:
  "commandCount CHR ''M'' (plainRectPath w h) = 1"
  "commandCount CHR ''Z'' (plainRectPath w h) = 1"
  "commandCount CHR ''L'' (plainRectPath w h) = 3"
  "commandCount CHR ''C'' (plainRectPath w h) = 0"
  unfolding commandCount_def plainRectPath_def
  by (simp_all add: numStr_no_command)

text \<open>
  Claim C4. For a rectangle shape with a positive corner radius, \<open>generateShapePath\<close>
  returns a path with exactly one move, one close, 4 line and 4 cubic commands, drawn
  with the effective radius \<^verbatim>\<open>Math.min(cornerRadius, w / 2, h / 2)\<close>; for positive
  width and height and a radius of at most \<open>min w h / 2\<close> the effective radius is the
  radius itself. A radius that is absent or not positive yields the plain rectangle
  (one move, three lines and the close).
\<close>

theorem generateShapePath_roundedRect:
  "(0 < cr \<longrightarrow>
      (\<exists>d. generateShapePath (Some \<lparr>cs_type = Rect, cornerRadius = Some cr\<rparr>) w h = Some d \<and>
           d = joinSp (map tokStr (roundedRectTokens w h (clampRadius cr w h))) \<and>
           clampRadius cr w h = min cr (min (w / 2) (h / 2)) \<and>
           commandCount CHR ''M'' d = 1 \<and> commandCount CHR ''Z'' d = 1 \<and>
           commandCount CHR ''L'' d = 4 \<and> commandCount CHR ''C'' d = 4))
   \<and> (0 < w \<and> 0 < h \<and> 0 < cr \<and> cr \<le> min w h / 2 \<longrightarrow> clampRadius cr w h = cr)
   \<and> (cs_type cs = Rect \<and> (cornerRadius cs = None \<or> (\<exists>c. cornerRadius cs = Some c \<and> c \<le> 0)) \<longrightarrow>
        generateShapePath (Some cs) w h = Some (plainRectPath w h) \<and>
        commandCount CHR ''M'' (plainRectPath w h) = 1 \<and>
        commandCount CHR ''Z'' (plainRectPath w h) = 1 \<and>
        commandCount CHR ''L'' (plainRectPath w h) = 3 \<and>
        commandCount CHR ''C'' (plainRectPath w h) = 0)"
proof -
  have a: "\<exists>d. generateShapePath (Some \<lparr>cs_type = Rect, cornerRadius = Some cr\<rparr>) w h = Some d \<and>
           d = joinSp (map tokStr (roundedRectTokens w h (clampRadius cr w h))) \<and>
           clampRadius cr w h = min cr (min (w / 2) (h / 2)) \<and>
           commandCount CHR ''M'' d = 1 \<and> commandCount CHR ''Z'' d = 1 \<and>
           commandCount CHR ''L'' d = 4 \<and> commandCount CHR ''C'' d = 4" if "0 < cr"
  proof -
    from that have "generateShapePath (Some \<lparr>cs_type = Rect, cornerRadius = Some cr\<rparr>) w h =
        Some (joinSp (map tokStr (roundedRectTokens w h (clampRadius cr w h))))"
      by (simp add: generateShapePath_def)
    then show ?thesis
      by (simp add: roundedRect_counts clampRadius_def)
  qed
  have b: "clampRadius cr w h = cr" if "0 < w \<and> 0 < h \<and> 0 < cr \<and> cr \<le> min w h / 2"
    using that by (auto simp: clampRadius_def min_def)
  have c: "generateShapePath (Some cs) w h = Some (plainRectPath w h)"
    if "cs_type cs = Rect \<and> (cornerRadius cs = None \<or> (\<exists>c. cornerRadius cs = Some c \<and> c \<le> 0))"
    using that by (auto simp: generateShapePath_def)
  have d: "commandCount CHR ''M'' (plainRectPath w h) = 1 \<and>
        commandCount CHR ''Z'' (plainRectPath w h) = 1 \<and>
        commandCount CHR ''L'' (plainRectPath w h) = 3 \<and>
        commandCount CHR ''C'' (plainRectPath w h) = 0"
    by (simp add: plainRect_counts)
  from a b c d show ?thesis
    by blast
qed

lemmas num_eval = numStr_def r2_def K_def mathRound_def natStr.simps digit_def Let_def

text \<open>The theorem at a 200 by 100 rectangle with radius 20 and with no radius; a
  radius of 80 is clamped to 50.\<close>

theorem generateShapePath_roundedRect_witness:
  "generateShapePath (Some \<lparr>cs_type = Rect, cornerRadius = Some 20\<rparr>) 200 100 =
     Some ''M 20 0 L 180 0 C 191.05 0 200 8.95 200 20 L 200 80 C 200 91.05 191.05 100 180 100 L 20 100 C 8.95 100 0 91.05 0 80 L 0 20 C 0 8.95 8.95 0 20 0 Z''
   \<and> clampRadius 20 200 100 = 20
   \<and> commandCount CHR ''L'' ''M 20 0 L 180 0 C 191.05 0 200 8.95 200 20 L 200 80 C 200 91.05 191.05 100 180 100 L 20 100 C 8.95 100 0 91.05 0 80 L 0 20 C 0 8.95 8.95 0 20 0 Z'' = 4
   \<and> commandCount CHR ''C'' ''M 20 0 L 180 0 C 191.05 0 200 8.95 200 20 L 200 80 C 200 91.05 191.05 100 180 100 L 20 100 C 8.95 100 0 91.05 0 80 L 0 20 C 0 8.95 8.95 0 20 0 Z'' = 4
   \<and> generateShapePath (Some \<lparr>cs_type = Rect, cornerRadius = None\<rparr>) 200 100 =
     Some ''M 0 0 L 200 0 L 200 100 L 0 100 Z''
   \<and> clampRadius 80 200 100 = 50"
proof -
  let ?d = "''M 20 0 L 180 0 C 191.05 0 200 8.95 200 20 L 200 80 C 200 91.05 191.05 100 180 100 L 20 100 C 8.95 100 0 91.05 0 80 L 0 20 C 0 8.95 8.95 0 20 0 Z''"
  note t = generateShapePath_roundedRect[of 20 200 100 "\<lparr>cs_type = Rect, cornerRadius = None\<rparr>"]
  have ev: "joinSp (map tokStr (roundedRectTokens 200 100 20)) = ?d"
    by (simp add: roundedRectTokens_def num_eval)
  have pl: "plainRectPath 200 100 = ''M 0 0 L 200 0 L 200 100 L 0 100 Z''"
    by (simp add: plainRectPath_def num_eval)
  from t have cl: "clampRadius 20 200 100 = 20"
    by simp
  from t obtain d where d: "generateShapePath (Some \<lparr>cs_type = Rect, cornerRadius = Some 20\<rparr>) 200 100 = Some d"
      "d = joinSp (map tokStr (roundedRectTokens 200 100 (clampRadius 20 200 100)))"
      "commandCount CHR ''L'' d = 4" "commandCount CHR ''C'' d = 4"
    by auto
  from d(2) cl ev have "d = ?d"
    by simp
  moreover from t have "generateShapePath (Some \<lparr>cs_type = Rect, cornerRadius = None\<rparr>) 200 100 =
      Some (plainRectPath 200 100)"
    by simp
  moreover from generateShapePath_roundedRect[of 80 200 100] have "clampRadius 80 200 100 = 50"
    by simp
  ultimately show ?thesis
    using d cl pl by simp
qed

text \<open>
  Claim C9. For an ellipse with \<open>w = h = 100\<close> the ratio is 0.5523, the offset
  \<open>100 * 0.5523 / 2\<close> rounds to 27.62, the first curve's first control coordinate is
  \<open>50 + 27.62 = 77.62\<close>, and the path has one move, four cubic commands and one close.
  (Each coordinate is rounded by itself, a tie upwards: the control coordinates on the
  other side of the centre are \<open>r2 22.385 = 22.39\<close>.)
\<close>

theorem generateShapePath_ellipse_golden:
  "K = 5523 / 10000
   \<and> r2 (100 * K / 2) = 2762 / 100
   \<and> generateShapePath (Some \<lparr>cs_type = Ellipse, cornerRadius = None\<rparr>) 100 100 =
       Some ''M 50 0 C 77.62 0 100 22.39 100 50 C 100 77.62 77.62 100 50 100 C 22.39 100 0 77.62 0 50 C 0 22.39 22.39 0 50 0 Z''
   \<and> ellipseTokens 100 100 ! 4 = N (50 + 2762 / 100)
   \<and> commandCount CHR ''M'' (joinSp (map tokStr (ellipseTokens 100 100))) = 1
   \<and> commandCount CHR ''C'' (joinSp (map tokStr (ellipseTokens 100 100))) = 4
   \<and> commandCount CHR ''Z'' (joinSp (map tokStr (ellipseTokens 100 100))) = 1
   \<and> commandCount CHR ''L'' (joinSp (map tokStr (ellipseTokens 100 100))) = 0"
proof -
  have k: "K = 5523 / 10000"
    by (simp add: K_def)
  have o: "r2 (100 * K / 2) = 2762 / 100"
    by (simp add: r2_def K_def mathRound_def)
  have p: "generateShapePath (Some \<lparr>cs_type = Ellipse, cornerRadius = None\<rparr>) 100 100 =
       Some ''M 50 0 C 77.62 0 100 22.39 100 50 C 100 77.62 77.62 100 50 100 C 22.39 100 0 77.62 0 50 C 0 22.39 22.39 0 50 0 Z''"
    by (simp add: generateShapePath_def ellipseTokens_def num_eval)
  have x: "ellipseTokens 100 100 ! 4 = N (50 + 2762 / 100)"
    by (simp add: ellipseTokens_def r2_def K_def mathRound_def)
  from k o p x show ?thesis
    by (simp only: ellipse_counts)
qed

subsection \<open>Font matching\<close>

lemma filter_suffix_le:
  assumes "suffix r s"
  shows "length (filter P r) \<le> length (filter P s)"
proof -
  from assms obtain p where "s = p @ r"
    by (auto simp: suffix_def)
  then show ?thesis
    by simp
qed

lemma matchToken_suffix: "matchToken s = Some r \<Longrightarrow> suffix r s"
  by (auto simp: matchToken_def suffix_drop split: option.splits)

lemma matchStyle_suffix:
  assumes "matchStyle s = Some r"
  shows "suffix r s"
proof -
  from assms obtain q where q: "matchToken (dropWhile isSpaceHyphen s) = Some q"
    and r: "r = dropWhile isSpaceHyphen q"
    by (auto simp: matchStyle_def split: option.splits)
  have "suffix r q"
    unfolding r by (rule suffix_dropWhile)
  also have "suffix q (dropWhile isSpaceHyphen s)"
    using q by (rule matchToken_suffix)
  also have "suffix (dropWhile isSpaceHyphen s) s"
    by (rule suffix_dropWhile)
  finally show ?thesis .
qed

lemma replaceStyle_letters:
  "length (filter (\<lambda>c. \<not> isSeparator c) (replaceStyle s)) \<le> length (filter (\<lambda>c. \<not> isSeparator c) s)"
proof (induction s rule: replaceStyle.induct)
  case 1
  show ?case by simp
next
  case (2 c cs)
  show ?case
  proof (cases "matchStyle (c # cs)")
    case None
    with 2 show ?thesis by simp
  next
    case (Some r)
    have sp: "isSeparator CHR '' ''"
      by (simp add: isSeparator_def isSpace_def)
    have "length (filter (\<lambda>c. \<not> isSeparator c) (replaceStyle r))
          \<le> length (filter (\<lambda>c. \<not> isSeparator c) r)"
      using 2 Some by simp
    also have "\<dots> \<le> length (filter (\<lambda>c. \<not> isSeparator c) (c # cs))"
      using Some by (intro filter_suffix_le matchStyle_suffix)
    finally show ?thesis
      using Some sp by simp
  qed
qed

lemma trim_length: "length (trim s) \<le> length s"
proof -
  have "length (trim s) \<le> length (dropWhile isSpace s)"
    unfolding trim_def using length_dropWhile_le[of isSpace "rev (dropWhile isSpace s)"] by simp
  also have "\<dots> \<le> length s"
    by (rule length_dropWhile_le)
  finally show ?thesis .
qed

lemma stripStyle_le_normStr: "length (stripStyle s) \<le> length (normStr s)"
  unfolding stripStyle_def normStr_def
  using trim_length replaceStyle_letters le_trans by blast

lemma tier4_short: "length normalized < 4 \<Longrightarrow> tier4 normalized rawC = None"
  by (induction rawC) (auto simp: Let_def)

lemma tier4_long_entries:
  "tier4 normalized rawC = tier4 normalized (filter (\<lambda>(canvaLower, ref). 4 \<le> length (normStr canvaLower)) rawC)"
  by (induction rawC) (auto simp: Let_def)

lemma tier5_short: "length stripped < 4 \<Longrightarrow> tier5 stripped rawC = None"
  by (simp add: tier5_def)

lemma tier5loop_long_entries:
  "tier5loop stripped rawC =
   tier5loop stripped (filter (\<lambda>(canvaLower, ref). 4 \<le> length (stripStyle canvaLower)) rawC)"
  by (induction rawC) (auto simp: Let_def)

text \<open>
  Claim C7. The containment tiers never match a name of fewer than 4 characters: tier 4
  finds nothing for a family whose normalised name is that short and passes over every
  catalog entry whose normalised name is, tier 5 does the same with the style-stripped
  names. The style-stripped name is never longer than the normalised one, so for a
  family whose normalised name has fewer than 4 characters \<open>findCanvaFont\<close> returns
  what the three equality tiers return.
\<close>

theorem substring_tiers_need_four:
  "(length (normStr fontFamily) < 4 \<longrightarrow>
      tier4 (normStr fontFamily) rawC = None
      \<and> tier5 (stripStyle fontFamily) rawC = None
      \<and> findCanvaFont fontFamily rawC normC =
          (if fontFamily = [] \<or> rawC = [] then None
           else equalityTiers (trim (toLowerCase fontFamily)) (normStr fontFamily)
                  (stripStyle fontFamily) rawC normC))
   \<and> (length stripped < 4 \<longrightarrow> tier5 stripped rawC = None)
   \<and> (length normalized < 4 \<longrightarrow> tier4 normalized rawC = None)
   \<and> tier4 normalized rawC =
       tier4 normalized (filter (\<lambda>(canvaLower, ref). 4 \<le> length (normStr canvaLower)) rawC)
   \<and> tier5loop stripped rawC =
       tier5loop stripped (filter (\<lambda>(canvaLower, ref). 4 \<le> length (stripStyle canvaLower)) rawC)
   \<and> length (stripStyle fontFamily) \<le> length (normStr fontFamily)"
proof -
  have main: "tier4 (normStr fontFamily) rawC = None
      \<and> tier5 (stripStyle fontFamily) rawC = None
      \<and> findCanvaFont fontFamily rawC normC =
          (if fontFamily = [] \<or> rawC = [] then None
           else equalityTiers (trim (toLowerCase fontFamily)) (normStr fontFamily)
                  (stripStyle fontFamily) rawC normC)"
    if short: "length (normStr fontFamily) < 4"
  proof -
    from short have t4: "tier4 (normStr fontFamily) rawC = None"
      by (rule tier4_short)
    from short stripStyle_le_normStr[of fontFamily] have "length (stripStyle fontFamily) < 4"
      by simp
    then have t5: "tier5 (stripStyle fontFamily) rawC = None"
      by (rule tier5_short)
    from t4 t5 show ?thesis
      by (simp add: findCanvaFont_def Let_def split: option.splits)
  qed
  from main tier5_short[of stripped rawC] tier4_short[of normalized rawC]
    tier4_long_entries[of normalized rawC] tier5loop_long_entries[of stripped rawC]
    stripStyle_le_normStr[of fontFamily]
  show ?thesis
    by blast
qed

text \<open>
  The theorem at the family \<open>Go\<close> and a catalog that holds \<open>gotham\<close>: no match. A
  family of four characters does match by containment.
\<close>

theorem substring_tiers_need_four_witness:
  "findCanvaFont ''Go'' [(''gotham'', ''ref:gotham'')] [(''gotham'', ''ref:gotham'')] = None
   \<and> findCanvaFont ''Goth'' [(''gotham'', ''ref:gotham'')] [(''gotham'', ''ref:gotham'')] =
       Some ''ref:gotham''"
proof -
  let ?c = "[(''gotham'', ''ref:gotham'')]"
  have n: "normStr ''Go'' = ''go''"
    by code_simp
  have s: "stripStyle ''Go'' = ''go''"
    by code_simp
  have h: "length (normStr ''Go'') < 4"
    unfolding n by simp
  from substring_tiers_need_four[of "''Go''" ?c ?c] h
  have "findCanvaFont ''Go'' ?c ?c =
      equalityTiers (trim (toLowerCase ''Go'')) (normStr ''Go'') (stripStyle ''Go'') ?c ?c"
    by simp
  also have "\<dots> = None"
    unfolding n s by (simp add: equalityTiers_def trim_def toLowerCase_def lowerChar_def isSpace_def)
  finally have a: "findCanvaFont ''Go'' ?c ?c = None" .
  have b: "findCanvaFont ''Goth'' ?c ?c = Some ''ref:gotham''"
    by code_simp
  from a b show ?thesis
    by blast
qed

subsection \<open>Font resolution\<close>

lemma findCanvaFont_empty: "fontFamily = [] \<or> rawC = [] \<Longrightarrow> findCanvaFont fontFamily rawC normC = None"
  by (simp add: findCanvaFont_def)

text \<open>
  Claim C1, as amended. With an empty family name or an empty catalog \<open>findCanvaFont\<close>
  finds nothing, and \<open>resolveFontRef\<close> goes on as for any unmatched family: it returns
  the choice cached for the lower-case family when there is one, and creates the
  prompt for the family when there is none.
\<close>

theorem resolveFontRef_empty:
  "fontFamily = [] \<or> rawC = [] \<longrightarrow>
     findCanvaFont fontFamily rawC normC = None
     \<and> resolveFontRef fontFamily rawC normC st =
         (case userFontChoices st (toLowerCase fontFamily) of
            Some cached \<Rightarrow> (Resolved cached, st)
          | None \<Rightarrow> (Prompted, st\<lparr>pendingFontName := fontFamily, pendingFontResolve := True\<rparr>))"
  by (auto simp: findCanvaFont_empty resolveFontRef_def askUserForFont_def split: option.splits)

text \<open>The theorem at an empty catalog: a cached sentinel is returned, and with nothing
  cached the prompt for the family is created.\<close>

theorem resolveFontRef_empty_witness:
  "resolveFontRef ''Arial'' [] [] (freshState\<lparr>userFontChoices := [''arial'' \<mapsto> UseSvg]\<rparr>) =
     (Resolved UseSvg, freshState\<lparr>userFontChoices := [''arial'' \<mapsto> UseSvg]\<rparr>)
   \<and> resolveFontRef ''Arial'' [] [] freshState =
     (Prompted, freshState\<lparr>pendingFontName := ''Arial'', pendingFontResolve := True\<rparr>)"
proof -
  have h: "''Arial'' = [] \<or> ([]::FontCatalog) = []"
    by simp
  have l: "toLowerCase ''Arial'' = ''arial''"
    by (simp add: toLowerCase_def lowerChar_def)
  note a = resolveFontRef_empty[of "''Arial''" "[]" "[]" "freshState\<lparr>userFontChoices := [''arial'' \<mapsto> UseSvg]\<rparr>",
      rule_format, OF h]
  note b = resolveFontRef_empty[of "''Arial''" "[]" "[]" freshState, rule_format, OF h]
  from a b show ?thesis
    unfolding l by (simp add: freshState_def)
qed

text \<open>
  Claim C1 as stated fails: with an empty family name and nothing cached, and with an
  empty catalog and nothing cached, the result is not the sentinel but a pending prompt.
\<close>

theorem resolveFontRef_empty_counterexample:
  "resolveFontRef [] [(''arial'', ''ref:arial'')] [(''arial'', ''ref:arial'')] freshState =
     (Prompted, freshState\<lparr>pendingFontName := [], pendingFontResolve := True\<rparr>)
   \<and> resolveFontRef ''Arial'' [] [] freshState =
     (Prompted, freshState\<lparr>pendingFontName := ''Arial'', pendingFontResolve := True\<rparr>)
   \<and> fst (resolveFontRef ''Arial'' [] [] freshState) \<noteq> Resolved UseSvg
   \<and> pendingFontResolve (snd (resolveFontRef ''Arial'' [] [] freshState))"
  by (simp add: resolveFontRef_def findCanvaFont_def askUserForFont_def freshState_def
      toLowerCase_def)

lemma userActs_prompt:
  assumes "pendingFontResolve st" and "pendingFontName st = fontFamily"
    and "act \<noteq> PickFont PickerThrew" and "userActs act st = (c, st')"
  shows "\<exists>choice. c = Some choice \<and> userFontChoices st' (toLowerCase fontFamily) = Some choice"
proof (cases act)
  case (PickFont result)
  with assms show ?thesis
    by (cases result) (auto simp: handlePickFont_def cacheChoice_def clearPending_def)
next
  case UseSvgButton
  with assms show ?thesis
    by (auto simp: handleUseSvg_def cacheChoice_def clearPending_def)
qed

lemma userActs_threw:
  assumes "pendingFontResolve st" and "userActs (PickFont PickerThrew) st = (c, st')"
  shows "c = Some UseSvg \<and> userFontChoices st' = userFontChoices st"
  using assms by (auto simp: handlePickFont_def clearPending_def)

lemma resolveFontRef_unchanged:
  "resolveFontRef fontFamily rawC normC st = (Resolved choice, st') \<Longrightarrow> st' = st"
  by (auto simp: resolveFontRef_def split: option.splits)

lemma resolveFontRef_prompted:
  assumes "resolveFontRef fontFamily rawC normC st = (Prompted, st')"
  shows "findCanvaFont fontFamily rawC normC = None"
    and "userFontChoices st (toLowerCase fontFamily) = None"
    and "st' = askUserForFont fontFamily st"
  using assms by (auto simp: resolveFontRef_def split: option.splits)

lemma resolveAwait_cases:
  assumes "resolveAwait act fontFamily rawC normC st = (c, st', prompted)"
  shows "(\<not> prompted \<and> st' = st \<and>
          (\<exists>choice. c = Some choice \<and> resolveFontRef fontFamily rawC normC st = (Resolved choice, st)))
       \<or> (prompted \<and> findCanvaFont fontFamily rawC normC = None \<and>
           userFontChoices st (toLowerCase fontFamily) = None \<and>
           userActs act (askUserForFont fontFamily st) = (c, st'))"
proof -
  obtain r s where rs: "resolveFontRef fontFamily rawC normC st = (r, s)"
    by (cases "resolveFontRef fontFamily rawC normC st")
  show ?thesis
  proof (cases r)
    case (Resolved choice)
    with rs resolveFontRef_unchanged[of fontFamily rawC normC st choice s] assms show ?thesis
      by (simp add: resolveAwait_def)
  next
    case Prompted
    with rs resolveFontRef_prompted[of fontFamily rawC normC st s] assms show ?thesis
      by (simp add: resolveAwait_def split: prod.splits)
  qed
qed

text \<open>
  Resolution on the paths that keep the cache in step. An awaited resolution always
  yields a choice. Unless the font picker itself threw, resolving the same family again
  in the state the first resolution left returns the same choice without a prompt,
  whatever the user would have answered: an automatic match and a cached choice are
  found again, and a choice the user made at the prompt (a font picked, the picker
  cancelled, or the image button) is in the cache under the lower-case family when the
  first resolution completes.
\<close>

theorem resolveFontRef_idempotent:
  "(\<exists>choice st' prompted. resolveAwait act fontFamily rawC normC st = (Some choice, st', prompted))
   \<and> (resolveAwait act fontFamily rawC normC st = (Some choice, st', prompted) \<and>
        act \<noteq> PickFont PickerThrew \<longrightarrow>
          resolveFontRef fontFamily rawC normC st' = (Resolved choice, st')
          \<and> resolveAwait act' fontFamily rawC normC st' = (Some choice, st', False)
          \<and> (prompted \<longrightarrow> userFontChoices st' (toLowerCase fontFamily) = Some choice))"
proof (intro conjI impI)
  obtain c s p where r: "resolveAwait act fontFamily rawC normC st = (c, s, p)"
    by (cases "resolveAwait act fontFamily rawC normC st")
  have "c \<noteq> None"
  proof (cases p)
    case False
    with resolveAwait_cases[OF r] show ?thesis
      by blast
  next
    case True
    with resolveAwait_cases[OF r]
    have u: "userActs act (askUserForFont fontFamily st) = (c, s)"
      by blast
    have pend: "pendingFontResolve (askUserForFont fontFamily st)"
      by (simp add: askUserForFont_def)
    show ?thesis
    proof (cases "act = PickFont PickerThrew")
      case True
      with u pend userActs_threw show ?thesis
        by blast
    next
      case False
      from userActs_prompt[OF pend _ False u, of fontFamily] show ?thesis
        by (auto simp: askUserForFont_def)
    qed
  qed
  with r show "\<exists>choice st' prompted.
      resolveAwait act fontFamily rawC normC st = (Some choice, st', prompted)"
    by auto
next
  assume h: "resolveAwait act fontFamily rawC normC st = (Some choice, st', prompted) \<and>
        act \<noteq> PickFont PickerThrew"
  then have r: "resolveAwait act fontFamily rawC normC st = (Some choice, st', prompted)"
    and nt: "act \<noteq> PickFont PickerThrew"
    by simp_all
  have again: "resolveFontRef fontFamily rawC normC st' = (Resolved choice, st')"
    and cached: "prompted \<longrightarrow> userFontChoices st' (toLowerCase fontFamily) = Some choice"
  proof -
    show "resolveFontRef fontFamily rawC normC st' = (Resolved choice, st')"
    proof (cases prompted)
      case False
      with resolveAwait_cases[OF r] show ?thesis
        by auto
    next
      case True
      with resolveAwait_cases[OF r]
      have none: "findCanvaFont fontFamily rawC normC = None"
        and u: "userActs act (askUserForFont fontFamily st) = (Some choice, st')"
        by blast+
      have "pendingFontResolve (askUserForFont fontFamily st)"
        "pendingFontName (askUserForFont fontFamily st) = fontFamily"
        by (simp_all add: askUserForFont_def)
      from userActs_prompt[OF this nt u]
      have "userFontChoices st' (toLowerCase fontFamily) = Some choice"
        by simp
      with none show ?thesis
        by (simp add: resolveFontRef_def)
    qed
    show "prompted \<longrightarrow> userFontChoices st' (toLowerCase fontFamily) = Some choice"
    proof
      assume prompted
      with resolveAwait_cases[OF r]
      have u: "userActs act (askUserForFont fontFamily st) = (Some choice, st')"
        by blast
      have "pendingFontResolve (askUserForFont fontFamily st)"
        "pendingFontName (askUserForFont fontFamily st) = fontFamily"
        by (simp_all add: askUserForFont_def)
      from userActs_prompt[OF this nt u]
      show "userFontChoices st' (toLowerCase fontFamily) = Some choice"
        by simp
    qed
  qed
  from again show "resolveFontRef fontFamily rawC normC st' = (Resolved choice, st')" .
  from again show "resolveAwait act' fontFamily rawC normC st' = (Some choice, st', False)"
    by (simp add: resolveAwait_def)
  from cached show "prompted \<Longrightarrow> userFontChoices st' (toLowerCase fontFamily) = Some choice"
    by simp
qed

text \<open>
  The theorem at a family the empty catalog cannot match: the user picks a font at the
  prompt, and the second resolution is served from the cache although the user would
  now press the image button.
\<close>

theorem resolveFontRef_idempotent_witness:
  "resolveAwait (PickFont (Completed ''ref:bar'')) ''Foo'' [] [] freshState =
     (Some (Font ''ref:bar''), freshState\<lparr>userFontChoices := [''foo'' \<mapsto> Font ''ref:bar'']\<rparr>, True)
   \<and> resolveAwait UseSvgButton ''Foo'' [] []
       (freshState\<lparr>userFontChoices := [''foo'' \<mapsto> Font ''ref:bar'']\<rparr>) =
     (Some (Font ''ref:bar''), freshState\<lparr>userFontChoices := [''foo'' \<mapsto> Font ''ref:bar'']\<rparr>, False)
   \<and> userFontChoices (freshState\<lparr>userFontChoices := [''foo'' \<mapsto> Font ''ref:bar'']\<rparr>) ''foo'' =
       Some (Font ''ref:bar'')"
proof -
  let ?st1 = "freshState\<lparr>userFontChoices := [''foo'' \<mapsto> Font ''ref:bar'']\<rparr>"
  have l: "toLowerCase ''Foo'' = ''foo''"
    by (simp add: toLowerCase_def lowerChar_def)
  have first: "resolveAwait (PickFont (Completed ''ref:bar'')) ''Foo'' [] [] freshState =
      (Some (Font ''ref:bar''), ?st1, True)"
    by (simp add: resolveAwait_def resolveFontRef_def findCanvaFont_def askUserForFont_def
        handlePickFont_def cacheChoice_def clearPending_def freshState_def l)
  note t = resolveFontRef_idempotent[of "PickFont (Completed ''ref:bar'')" "''Foo''" "[]" "[]"
      freshState "Font ''ref:bar''" ?st1 True UseSvgButton]
  from t first have second: "resolveAwait UseSvgButton ''Foo'' [] [] ?st1 =
      (Some (Font ''ref:bar''), ?st1, False)"
    by blast
  from t first have cached: "userFontChoices ?st1 (toLowerCase ''Foo'') = Some (Font ''ref:bar'')"
    by blast
  from first second cached show ?thesis
    unfolding l by blast
qed

text \<open>
  Claim C8. Font resolution is to be idempotent: resolving the same family a second
  time returns the same choice without a second prompt, a choice obtained at the prompt
  being in the cache before the first resolution completes. The code breaks this when
  the font picker throws: the \<^verbatim>\<open>catch\<close> branch of \<^verbatim>\<open>handlePickFont\<close> resolves the promise
  with the sentinel and, unlike the branches beside it and \<^verbatim>\<open>handleUseSvg\<close>, writes
  nothing to the cache. The first resolution yields the sentinel and leaves the state
  as it was; the second resolution of the same family prompts again, and a font picked
  then gives another choice.
\<close>

theorem resolveFontRef_picker_exception:
  "resolveAwait (PickFont PickerThrew) ''Foo'' [] [] freshState = (Some UseSvg, freshState, True)
   \<and> resolveFontRef ''Foo'' [] [] freshState =
       (Prompted, freshState\<lparr>pendingFontName := ''Foo'', pendingFontResolve := True\<rparr>)
   \<and> resolveAwait (PickFont (Completed ''ref:bar'')) ''Foo'' [] [] freshState =
       (Some (Font ''ref:bar''), freshState\<lparr>userFontChoices := [''foo'' \<mapsto> Font ''ref:bar'']\<rparr>, True)"
proof -
  have l: "toLowerCase ''Foo'' = ''foo''"
    by (simp add: toLowerCase_def lowerChar_def)
  show ?thesis
    by (simp add: resolveAwait_def resolveFontRef_def findCanvaFont_def askUserForFont_def
        handlePickFont_def cacheChoice_def clearPending_def freshState_def l)
qed

subsection \<open>Paint order\<close>

lemma insertBy_compareZ: "insertBy compareZ a bs = insort_key zKey a bs"
  by (induction bs) (simp_all add: compareZ_def)

lemma sortObjects_sort_key: "sortObjects objects = sort_key zKey objects"
proof -
  have "insertBy compareZ = insort_key zKey"
    by (intro ext) (rule insertBy_compareZ)
  then show ?thesis
    by (simp add: sortObjects_def sortBy_def sort_key_def)
qed

text \<open>
  Claim C5. The compiler works on the objects sorted by \<^verbatim>\<open>zIndex ?? index\<close>: the result
  is ascending in that key, it is a rearrangement of the input, and objects with equal
  keys keep their original order. Objects with z-index 3, 1, 2 at indices 0, 1, 2 are
  compiled in the order 1, 2, 0; an object without z-index is placed by its index, and
  a tie keeps the earlier object first.
\<close>

theorem sortObjects_stable:
  "sorted (map zKey (sortObjects objects))
   \<and> mset (sortObjects objects) = mset objects
   \<and> (\<forall>k. filter (\<lambda>obj. zKey obj = k) (sortObjects objects) = filter (\<lambda>obj. zKey obj = k) objects)
   \<and> zKey obj = (case lo_zIndex obj of Some z \<Rightarrow> z | None \<Rightarrow> lo_index obj)
   \<and> map lo_index (sortObjects [imageObject 0 (Some 3), imageObject 1 (Some 1), imageObject 2 (Some 2)])
       = [1, 2, 0]
   \<and> map lo_index (sortObjects [imageObject 0 (Some 2), imageObject 1 None, imageObject 2 (Some 1)])
       = [1, 2, 0]"
proof -
  have "sorted (map zKey (sortObjects objects))"
    unfolding sortObjects_sort_key by (rule sorted_sort_key)
  moreover have "mset (sortObjects objects) = mset objects"
    unfolding sortObjects_sort_key by (rule mset_sort)
  moreover have "filter (\<lambda>obj. zKey obj = k) (sortObjects objects) = filter (\<lambda>obj. zKey obj = k) objects" for k
    unfolding sortObjects_sort_key by (rule sort_key_stable)
  moreover have "map lo_index (sortObjects [imageObject 0 (Some 3), imageObject 1 (Some 1), imageObject 2 (Some 2)])
       = [1, 2, 0]"
    by (simp add: sortObjects_def sortBy_def compareZ_def zKey_def imageObject_def)
  moreover have "map lo_index (sortObjects [imageObject 0 (Some 2), imageObject 1 None, imageObject 2 (Some 1)])
       = [1, 2, 0]"
    by (simp add: sortObjects_def sortBy_def compareZ_def zKey_def imageObject_def)
  ultimately show ?thesis
    by (simp add: zKey_def)
qed

subsection \<open>The compile loop and the opacity assignments\<close>

lemma compileStep_skip:
  "emitObject ir rf obj = None \<Longrightarrow> compileStep ir rf st obj = st"
  by (simp add: compileStep_def)

lemma compileStep_emit:
  assumes "emitObject ir rf obj = Some (el, k)"
  shows "elements (compileStep ir rf st obj) = elements st @ [el]"
    and "elementIdx (compileStep ir rf st obj) = Suc (elementIdx st)"
    and "opacityMap (compileStep ir rf st obj) = opacityMap st @ spec_assignment (elementIdx st) obj"
  using assms
  by (simp_all add: compileStep_def recordOpacity_def pushElement_def spec_assignment_def
      split: option.splits)

lemma compile_foldl:
  "elements (foldl (compileStep ir rf) st objs) = elements st @ spec_elements ir rf objs
   \<and> elementIdx (foldl (compileStep ir rf) st objs) = elementIdx st + length (nonSkipped ir rf objs)
   \<and> opacityMap (foldl (compileStep ir rf) st objs) =
       opacityMap st @ concat (map (\<lambda>(i, obj). spec_assignment i obj)
         (enumerate (elementIdx st) (nonSkipped ir rf objs)))"
proof (induction objs arbitrary: st)
  case Nil
  show ?case
    by (simp add: spec_elements_def nonSkipped_def)
next
  case (Cons obj objs)
  show ?case
  proof (cases "emitObject ir rf obj")
    case None
    then have "compileStep ir rf st obj = st"
      by (rule compileStep_skip)
    with None Cons.IH[of st] show ?thesis
      by (simp add: spec_elements_def nonSkipped_def)
  next
    case (Some p)
    obtain el k where p: "p = (el, k)"
      by (cases p)
    note e = compileStep_emit[OF Some[unfolded p], of st]
    from Some p Cons.IH[of "compileStep ir rf st obj"] e show ?thesis
      by (simp add: spec_elements_def nonSkipped_def)
  qed
qed

text \<open>
  Claim C3. After the compile loop the elements are those of the objects that are not
  skipped, in order; the assignments are exactly those of the objects among them with
  a defined opacity below 1, each with the position of its element as index; the
  counter equals the number of elements, so every recorded index points into the
  element array; skipped objects add to neither.
\<close>

theorem compileObjects_opacity_index:
  "elements (compileObjects ir rf objs) = spec_elements ir rf objs
   \<and> opacityMap (compileObjects ir rf objs) = spec_opacityMap ir rf objs
   \<and> elementIdx (compileObjects ir rf objs) = length (elements (compileObjects ir rf objs))
   \<and> length (elements (compileObjects ir rf objs)) = length (nonSkipped ir rf objs)
   \<and> list_all (\<lambda>a. elementIndex a < length (elements (compileObjects ir rf objs)))
        (opacityMap (compileObjects ir rf objs))
   \<and> compileLayout ir rf objs = compileObjects ir rf (sortObjects objs)"
proof -
  note f = compile_foldl[of ir rf initialState objs]
  have el: "elements (compileObjects ir rf objs) = spec_elements ir rf objs"
    using f by (simp add: compileObjects_def initialState_def)
  have om: "opacityMap (compileObjects ir rf objs) = spec_opacityMap ir rf objs"
    using f by (simp add: compileObjects_def initialState_def spec_opacityMap_def)
  have ix: "elementIdx (compileObjects ir rf objs) = length (nonSkipped ir rf objs)"
    using f by (simp add: compileObjects_def initialState_def)
  have len: "length (spec_elements ir rf objs) = length (nonSkipped ir rf objs)"
    by (simp add: spec_elements_def)
  have bound: "elementIndex a < length xs"
    if "a \<in> set (concat (map (\<lambda>(i, obj). spec_assignment i obj) (enumerate 0 xs)))" for a xs
  proof -
    from that obtain i obj where io: "(i, obj) \<in> set (enumerate 0 xs)" and a: "a \<in> set (spec_assignment i obj)"
      by auto
    from io have "i < length xs"
      by (simp add: in_set_enumerate_eq)
    moreover from a have "elementIndex a = i"
      by (auto simp: spec_assignment_def split: option.splits if_splits)
    ultimately show ?thesis
      by simp
  qed
  have "list_all (\<lambda>a. elementIndex a < length (elements (compileObjects ir rf objs)))
        (opacityMap (compileObjects ir rf objs))"
    unfolding list_all_iff om el len spec_opacityMap_def using bound by blast
  with el om ix len show ?thesis
    by (simp add: compileLayout_def)
qed

text \<open>
  The bookkeeping of claim C3 on a layout of four objects: an image whose upload is
  missing (skipped, although its opacity is 0.5), a text with opacity 0.3, an image
  without opacity, and an ellipse mask with stroke bounds and opacity 0.8, which
  becomes one group.
\<close>

theorem compileObjects_opacity_index_example:
  "opacityMap (compileObjects sampleRefs Map.empty sampleObjects) =
     [\<lparr>elementIndex = 0, opacity = 3 / 10\<rparr>, \<lparr>elementIndex = 2, opacity = 8 / 10\<rparr>]
   \<and> elementIdx (compileObjects sampleRefs Map.empty sampleObjects) = 3
   \<and> length (elements (compileObjects sampleRefs Map.empty sampleObjects)) = 3
   \<and> elements (compileObjects sampleRefs Map.empty sampleObjects) ! 2 =
       Group
         [Image \<lparr>im_ref = ''img:s'', im_top = 0, im_left = 0, im_width = 220, im_height = 220,
                 im_altText = \<lparr>alt_text = ''effects'', alt_decorative = True\<rparr>\<rparr>,
          Shape \<lparr>sh_d = ''M 100 0 C 155.23 0 200 44.77 200 100 C 200 155.23 155.23 200 100 200 C 44.77 200 0 155.23 0 100 C 0 44.77 44.77 0 100 0 Z'',
                 sh_dropTarget = True, sh_fillRef = ''img:c'',
                 sh_viewBoxWidth = 200, sh_viewBoxHeight = 200, sh_top = 10,
                 sh_left = 10, sh_width = 200, sh_height = 200\<rparr>]
         \<lparr>box_top = - 10, box_left = - 10, box_width = 220, box_height = 220\<rparr>"
proof -
  note t = compileObjects_opacity_index[of sampleRefs Map.empty sampleObjects]
  have e1: "emitObject sampleRefs Map.empty (sampleObjects ! 0) = None"
    by (simp add: sample_eval emitObject_def emitImage_def)
  have e2: "emitObject sampleRefs Map.empty (sampleObjects ! 1) =
      Some (Text \<lparr>tx_children = [''Hello''], tx_top = 20, tx_left = 10, tx_width = 115,
            tx_fontSize = 100, tx_color = ''#000000'', tx_fontWeight = Str ''normal'',
            tx_fontStyle = ''italic'', tx_textAlign = Str ''start'',
            tx_decoration = None, tx_fontRef = None\<rparr>, PlainKind)"
    by (simp add: sample_eval emitObject_def emitText_def textElement_def truthy_def
        mathCeil_def TEXT_WIDTH_PADDING_def clampFontSize_def)
  have e3: "emitObject sampleRefs Map.empty (sampleObjects ! 2) =
      Some (Image \<lparr>im_ref = ''img:b'', im_top = 0, im_left = 0, im_width = 10, im_height = 10,
         im_altText = \<lparr>alt_text = ''b.png'', alt_decorative = False\<rparr>\<rparr>, PlainKind)"
    by (simp add: sample_eval emitObject_def emitImage_def imageElement_def)
  have p: "generateShapePath (Some \<lparr>cs_type = Ellipse, cornerRadius = None\<rparr>) 200 200 =
      Some ''M 100 0 C 155.23 0 200 44.77 200 100 C 200 155.23 155.23 200 100 200 C 44.77 200 0 155.23 0 100 C 0 44.77 44.77 0 100 0 Z''"
    by (simp add: generateShapePath_def ellipseTokens_def num_eval)
  have e4: "emitObject sampleRefs Map.empty (sampleObjects ! 3) =
      Some (Group
         [Image \<lparr>im_ref = ''img:s'', im_top = 0, im_left = 0, im_width = 220, im_height = 220,
                 im_altText = \<lparr>alt_text = ''effects'', alt_decorative = True\<rparr>\<rparr>,
          Shape \<lparr>sh_d = ''M 100 0 C 155.23 0 200 44.77 200 100 C 200 155.23 155.23 200 100 200 C 44.77 200 0 155.23 0 100 C 0 44.77 44.77 0 100 0 Z'',
                 sh_dropTarget = True, sh_fillRef = ''img:c'',
                 sh_viewBoxWidth = 200, sh_viewBoxHeight = 200, sh_top = 10,
                 sh_left = 10, sh_width = 200, sh_height = 200\<rparr>]
         \<lparr>box_top = - 10, box_left = - 10, box_width = 220, box_height = 220\<rparr>, FrameKind)"
    by (simp add: sampleObjects_def maskObject_def sampleRefs_def emitObject_def emitClipMask_def
        p truthy_def frameWithStroke_def frameElement_def)
  have ns: "nonSkipped sampleRefs Map.empty sampleObjects =
      [sampleObjects ! 1, sampleObjects ! 2, sampleObjects ! 3]"
    unfolding nonSkipped_def
    by (subst (2) sampleObjects_def) (simp add: e1[unfolded sampleObjects_def, simplified]
        e2[unfolded sampleObjects_def, simplified] e3[unfolded sampleObjects_def, simplified]
        e4[unfolded sampleObjects_def, simplified] sampleObjects_def)
  have om: "spec_opacityMap sampleRefs Map.empty sampleObjects =
     [\<lparr>elementIndex = 0, opacity = 3 / 10\<rparr>, \<lparr>elementIndex = 2, opacity = 8 / 10\<rparr>]"
    unfolding spec_opacityMap_def ns
    by (simp add: enumerate_simps spec_assignment_def sample_eval)
  have el: "spec_elements sampleRefs Map.empty sampleObjects ! 2 =
      fst (the (emitObject sampleRefs Map.empty (sampleObjects ! 3)))"
    unfolding spec_elements_def ns by simp
  from t have t1: "elements (compileObjects sampleRefs Map.empty sampleObjects) =
        spec_elements sampleRefs Map.empty sampleObjects"
    and t2: "opacityMap (compileObjects sampleRefs Map.empty sampleObjects) =
        spec_opacityMap sampleRefs Map.empty sampleObjects"
    and t3: "elementIdx (compileObjects sampleRefs Map.empty sampleObjects) =
        length (elements (compileObjects sampleRefs Map.empty sampleObjects))"
    and t4: "length (elements (compileObjects sampleRefs Map.empty sampleObjects)) =
        length (nonSkipped sampleRefs Map.empty sampleObjects)"
    by blast+
  have len: "length (elements (compileObjects sampleRefs Map.empty sampleObjects)) = 3"
    unfolding t4 ns by simp
  have third: "elements (compileObjects sampleRefs Map.empty sampleObjects) ! 2 =
      fst (the (emitObject sampleRefs Map.empty (sampleObjects ! 3)))"
    unfolding t1 by (rule el)
  show ?thesis
    unfolding t2 om t3 len third e4 by simp
qed

subsection \<open>Text objects\<close>

lemma emitObject_text:
  "lo_type obj = TextType \<Longrightarrow> lo_textData obj = Some td \<Longrightarrow>
   emitObject ir rf obj = Some (emitText ir rf obj td)"
  by (simp add: emitObject_def)

lemma getProperty_absent:
  "key \<notin> set (map fst table) \<Longrightarrow> key \<notin> set OBJECT_PROTOTYPE_KEYS \<Longrightarrow>
   getProperty table key = None"
  by (simp add: getProperty_def map_of_eq_None_iff[THEN iffD2])

lemma getProperty_inherited:
  "key \<notin> set (map fst table) \<Longrightarrow> key \<in> set OBJECT_PROTOTYPE_KEYS \<Longrightarrow>
   getProperty table key = Some (Inherited key)"
  by (simp add: getProperty_def map_of_eq_None_iff[THEN iffD2])

lemma fontWeightOf_default:
  "fontWeightOf None = Str ''normal''"
  "toLowerCase w \<notin> set (map fst FONT_WEIGHT_MAP) \<Longrightarrow>
   toLowerCase w \<notin> set OBJECT_PROTOTYPE_KEYS \<Longrightarrow> fontWeightOf (Some w) = Str ''normal''"
proof -
  have "getProperty FONT_WEIGHT_MAP ''undefined'' = None"
    by (simp add: getProperty_def FONT_WEIGHT_MAP_def OBJECT_PROTOTYPE_KEYS_def)
  then show "fontWeightOf None = Str ''normal''"
    by (simp add: fontWeightOf_def orDefault_def)
  show "fontWeightOf (Some w) = Str ''normal''"
    if "toLowerCase w \<notin> set (map fst FONT_WEIGHT_MAP)" "toLowerCase w \<notin> set OBJECT_PROTOTYPE_KEYS"
    using getProperty_absent[OF that] by (simp add: fontWeightOf_def orDefault_def)
qed

lemma textAlignOf_default:
  "a \<notin> set (map fst TEXT_ALIGN_MAP) \<Longrightarrow> a \<notin> set OBJECT_PROTOTYPE_KEYS \<Longrightarrow>
   textAlignOf a = Str ''start''"
  using getProperty_absent[of a TEXT_ALIGN_MAP] by (simp add: textAlignOf_def orDefault_def)

lemma textAlignOf_inherited:
  "a \<notin> set (map fst TEXT_ALIGN_MAP) \<Longrightarrow> a \<in> set OBJECT_PROTOTYPE_KEYS \<Longrightarrow>
   textAlignOf a = Inherited a"
  using getProperty_inherited[of a TEXT_ALIGN_MAP] by (simp add: textAlignOf_def orDefault_def)

lemma fontWeightOf_inherited:
  "toLowerCase w \<notin> set (map fst FONT_WEIGHT_MAP) \<Longrightarrow>
   toLowerCase w \<in> set OBJECT_PROTOTYPE_KEYS \<Longrightarrow> fontWeightOf (Some w) = Inherited (toLowerCase w)"
  using getProperty_inherited[of "toLowerCase w" FONT_WEIGHT_MAP]
  by (simp add: fontWeightOf_def orDefault_def)

lemma clampFontSize_range: "1 \<le> clampFontSize fs \<and> clampFontSize fs \<le> 100"
  by (simp add: clampFontSize_def)

text \<open>
  What the text branch does on every input. A text object with text data is never
  skipped: the loop body pushes exactly one element and advances the counter. With a
  concrete font reference the element is a text element with the content as its only
  child, the width \<^verbatim>\<open>Math.ceil(width * 1.15)\<close>, the font size rounded and clamped to
  1..100, the colour defaulting to black, weight and alignment as the table lookups
  give them, and the font reference. With the sentinel and an uploaded text image it is
  an image element at the object's geometry. With no font reference and no uploaded
  text image it is the text element without a font reference. The lookups give the
  defaults \<open>normal\<close> and \<open>start\<close> for a token that neither the table nor
  \<^verbatim>\<open>Object.prototype\<close> has.
\<close>

theorem text_object_always_emitted:
  "lo_type obj = TextType \<and> lo_textData obj = Some td \<longrightarrow>
     emitObject ir rf obj = Some (emitText ir rf obj td)
     \<and> elements (compileStep ir rf st obj) = elements st @ [fst (emitText ir rf obj td)]
     \<and> elementIdx (compileStep ir rf st obj) = elementIdx st + 1
     \<and> (\<forall>r. rf (td_fontFamily td) = Some (Font r) \<longrightarrow>
          fst (emitText ir rf obj td) =
            Text \<lparr>tx_children = [td_content td], tx_top = lo_y obj, tx_left = lo_x obj,
                  tx_width = \<lceil>lo_width obj * (115 / 100)\<rceil>,
                  tx_fontSize = max 1 (min 100 (mathRound (td_fontSize td))),
                  tx_color = (case td_color td of
                                None \<Rightarrow> ''#000000''
                              | Some c \<Rightarrow> if c = [] then ''#000000'' else c),
                  tx_fontWeight = fontWeightOf (td_fontWeight td),
                  tx_fontStyle = (if td_fontStyle td = ''italic'' then ''italic'' else ''normal''),
                  tx_textAlign = textAlignOf (td_alignment td),
                  tx_decoration =
                    Some (if td_textDecoration td = ''underline'' then ''underline'' else ''none''),
                  tx_fontRef = Some r\<rparr>)
     \<and> (\<forall>f ref. rf (td_fontFamily td) = Some UseSvg \<and> lo_textSvgFileName obj = Some f \<and>
            f \<noteq> [] \<and> ir f = Some ref \<longrightarrow>
          fst (emitText ir rf obj td) =
            Image \<lparr>im_ref = ref, im_top = lo_y obj, im_left = lo_x obj,
                   im_width = lo_width obj, im_height = lo_height obj,
                   im_altText = \<lparr>alt_text = take 30 (td_content td), alt_decorative = False\<rparr>\<rparr>)
     \<and> ((\<forall>r. rf (td_fontFamily td) \<noteq> Some (Font r)) \<and>
         (\<forall>f. lo_textSvgFileName obj = Some f \<and> f \<noteq> [] \<longrightarrow> ir f = None) \<longrightarrow>
          fst (emitText ir rf obj td) =
            Text \<lparr>tx_children = [td_content td], tx_top = lo_y obj, tx_left = lo_x obj,
                  tx_width = \<lceil>lo_width obj * (115 / 100)\<rceil>,
                  tx_fontSize = max 1 (min 100 (mathRound (td_fontSize td))),
                  tx_color = (case td_color td of
                                None \<Rightarrow> ''#000000''
                              | Some c \<Rightarrow> if c = [] then ''#000000'' else c),
                  tx_fontWeight = fontWeightOf (td_fontWeight td),
                  tx_fontStyle = (if td_fontStyle td = ''italic'' then ''italic'' else ''normal''),
                  tx_textAlign = textAlignOf (td_alignment td),
                  tx_decoration = None,
                  tx_fontRef = None\<rparr>)
     \<and> fontWeightOf None = Str ''normal''
     \<and> (\<forall>w. toLowerCase w \<notin> set (map fst FONT_WEIGHT_MAP) \<and>
            toLowerCase w \<notin> set OBJECT_PROTOTYPE_KEYS \<longrightarrow> fontWeightOf (Some w) = Str ''normal'')
     \<and> (\<forall>a. a \<notin> set (map fst TEXT_ALIGN_MAP) \<and> a \<notin> set OBJECT_PROTOTYPE_KEYS \<longrightarrow>
            textAlignOf a = Str ''start'')
     \<and> 1 \<le> clampFontSize (td_fontSize td) \<and> clampFontSize (td_fontSize td) \<le> 100"
proof
  assume h: "lo_type obj = TextType \<and> lo_textData obj = Some td"
  then have e: "emitObject ir rf obj = Some (emitText ir rf obj td)"
    by (simp add: emitObject_text)
  obtain el k where ek: "emitText ir rf obj td = (el, k)"
    by (cases "emitText ir rf obj td")
  have push: "elements (compileStep ir rf st obj) = elements st @ [fst (emitText ir rf obj td)]"
      "elementIdx (compileStep ir rf st obj) = elementIdx st + 1"
    using e ek by (simp_all add: compileStep_def recordOpacity_def pushElement_def)
  have te: "textElement obj td =
            \<lparr>tx_children = [td_content td], tx_top = lo_y obj, tx_left = lo_x obj,
                  tx_width = \<lceil>lo_width obj * (115 / 100)\<rceil>,
                  tx_fontSize = max 1 (min 100 (mathRound (td_fontSize td))),
                  tx_color = (case td_color td of
                                None \<Rightarrow> ''#000000''
                              | Some c \<Rightarrow> if c = [] then ''#000000'' else c),
                  tx_fontWeight = fontWeightOf (td_fontWeight td),
                  tx_fontStyle = (if td_fontStyle td = ''italic'' then ''italic'' else ''normal''),
                  tx_textAlign = textAlignOf (td_alignment td),
                  tx_decoration = None,
                  tx_fontRef = None\<rparr>"
    by (simp add: textElement_def mathCeil_def TEXT_WIDTH_PADDING_def clampFontSize_def truthy_def
        split: option.splits)
  have a: "fst (emitText ir rf obj td) =
      Text ((textElement obj td)\<lparr>tx_decoration :=
                      Some (if td_textDecoration td = ''underline'' then ''underline'' else ''none''),
                    tx_fontRef := Some r\<rparr>)"
    if "rf (td_fontFamily td) = Some (Font r)" for r
    using that by (simp add: emitText_def)
  have b: "fst (emitText ir rf obj td) = Image (imageElement ref obj (take 30 (td_content td)))"
    if "rf (td_fontFamily td) = Some UseSvg \<and> lo_textSvgFileName obj = Some f \<and> f \<noteq> [] \<and> ir f = Some ref"
    for f ref
    using that by (simp add: emitText_def truthy_def)
  have c: "fst (emitText ir rf obj td) = Text (textElement obj td)"
    if "(\<forall>r. rf (td_fontFamily td) \<noteq> Some (Font r)) \<and>
         (\<forall>f. lo_textSvgFileName obj = Some f \<and> f \<noteq> [] \<longrightarrow> ir f = None)"
    using that by (auto simp: emitText_def truthy_def split: option.splits FontChoice.splits)
  show "emitObject ir rf obj = Some (emitText ir rf obj td)
     \<and> elements (compileStep ir rf st obj) = elements st @ [fst (emitText ir rf obj td)]
     \<and> elementIdx (compileStep ir rf st obj) = elementIdx st + 1
     \<and> (\<forall>r. rf (td_fontFamily td) = Some (Font r) \<longrightarrow>
          fst (emitText ir rf obj td) =
            Text \<lparr>tx_children = [td_content td], tx_top = lo_y obj, tx_left = lo_x obj,
                  tx_width = \<lceil>lo_width obj * (115 / 100)\<rceil>,
                  tx_fontSize = max 1 (min 100 (mathRound (td_fontSize td))),
                  tx_color = (case td_color td of
                                None \<Rightarrow> ''#000000''
                              | Some c \<Rightarrow> if c = [] then ''#000000'' else c),
                  tx_fontWeight = fontWeightOf (td_fontWeight td),
                  tx_fontStyle = (if td_fontStyle td = ''italic'' then ''italic'' else ''normal''),
                  tx_textAlign = textAlignOf (td_alignment td),
                  tx_decoration =
                    Some (if td_textDecoration td = ''underline'' then ''underline'' else ''none''),
                  tx_fontRef = Some r\<rparr>)
     \<and> (\<forall>f ref. rf (td_fontFamily td) = Some UseSvg \<and> lo_textSvgFileName obj = Some f \<and>
            f \<noteq> [] \<and> ir f = Some ref \<longrightarrow>
          fst (emitText ir rf obj td) =
            Image \<lparr>im_ref = ref, im_top = lo_y obj, im_left = lo_x obj,
                   im_width = lo_width obj, im_height = lo_height obj,
                   im_altText = \<lparr>alt_text = take 30 (td_content td), alt_decorative = False\<rparr>\<rparr>)
     \<and> ((\<forall>r. rf (td_fontFamily td) \<noteq> Some (Font r)) \<and>
         (\<forall>f. lo_textSvgFileName obj = Some f \<and> f \<noteq> [] \<longrightarrow> ir f = None) \<longrightarrow>
          fst (emitText ir rf obj td) =
            Text \<lparr>tx_children = [td_content td], tx_top = lo_y obj, tx_left = lo_x obj,
                  tx_width = \<lceil>lo_width obj * (115 / 100)\<rceil>,
                  tx_fontSize = max 1 (min 100 (mathRound (td_fontSize td))),
                  tx_color = (case td_color td of
                                None \<Rightarrow> ''#000000''
                              | Some c \<Rightarrow> if c = [] then ''#000000'' else c),
                  tx_fontWeight = fontWeightOf (td_fontWeight td),
                  tx_fontStyle = (if td_fontStyle td = ''italic'' then ''italic'' else ''normal''),
                  tx_textAlign = textAlignOf (td_alignment td),
                  tx_decoration = None,
                  tx_fontRef = None\<rparr>)
     \<and> fontWeightOf None = Str ''normal''
     \<and> (\<forall>w. toLowerCase w \<notin> set (map fst FONT_WEIGHT_MAP) \<and>
            toLowerCase w \<notin> set OBJECT_PROTOTYPE_KEYS \<longrightarrow> fontWeightOf (Some w) = Str ''normal'')
     \<and> (\<forall>a. a \<notin> set (map fst TEXT_ALIGN_MAP) \<and> a \<notin> set OBJECT_PROTOTYPE_KEYS \<longrightarrow>
            textAlignOf a = Str ''start'')
     \<and> 1 \<le> clampFontSize (td_fontSize td) \<and> clampFontSize (td_fontSize td) \<le> 100"
    apply (intro conjI allI impI)
    subgoal by (rule e)
    subgoal by (rule push)
    subgoal by (rule push)
    subgoal for r using a[of r] by (simp add: te)
    subgoal for f ref using b[of f ref] by (simp add: imageElement_def)
    subgoal using c by (simp add: te)
    subgoal by (rule fontWeightOf_default)
    subgoal by (rule fontWeightOf_default) simp_all
    subgoal by (rule textAlignOf_default) simp_all
    subgoal using clampFontSize_range by blast
    subgoal using clampFontSize_range by blast
    done
qed

text \<open>The theorem at a text object with an unknown weight and alignment, no colour and
  a font size of 250.4: with a font, with the sentinel and a text image, with neither.\<close>

theorem text_object_always_emitted_witness:
  "elements (compileStep Map.empty [''Foo Sans'' \<mapsto> Font ''font:1''] initialState
      (textObject (Some sampleText) None)) =
     [Text \<lparr>tx_children = [''Hello''], tx_top = 20, tx_left = 10, tx_width = 115,
            tx_fontSize = 100, tx_color = ''#000000'', tx_fontWeight = Str ''normal'',
            tx_fontStyle = ''italic'', tx_textAlign = Str ''start'',
            tx_decoration = Some ''underline'', tx_fontRef = Some ''font:1''\<rparr>]
   \<and> elements (compileStep [''t_text.svg'' \<mapsto> ''img:7''] [''Foo Sans'' \<mapsto> UseSvg] initialState
      (textObject (Some sampleText) (Some ''t_text.svg''))) =
     [Image \<lparr>im_ref = ''img:7'', im_top = 20, im_left = 10, im_width = 100, im_height = 30,
             im_altText = \<lparr>alt_text = ''Hello'', alt_decorative = False\<rparr>\<rparr>]
   \<and> elements (compileStep Map.empty Map.empty initialState (textObject (Some sampleText) None)) =
     [Text \<lparr>tx_children = [''Hello''], tx_top = 20, tx_left = 10, tx_width = 115,
            tx_fontSize = 100, tx_color = ''#000000'', tx_fontWeight = Str ''normal'',
            tx_fontStyle = ''italic'', tx_textAlign = Str ''start'',
            tx_decoration = None, tx_fontRef = None\<rparr>]"
proof -
  let ?o1 = "textObject (Some sampleText) None"
  let ?o2 = "textObject (Some sampleText) (Some ''t_text.svg'')"
  let ?ir2 = "[''t_text.svg'' \<mapsto> ''img:7'']"
  let ?rf1 = "[''Foo Sans'' \<mapsto> Font ''font:1'']"
  let ?rf2 = "[''Foo Sans'' \<mapsto> UseSvg]"
  have h1: "lo_type ?o1 = TextType \<and> lo_textData ?o1 = Some sampleText"
    by (simp add: textObject_def)
  have h2: "lo_type ?o2 = TextType \<and> lo_textData ?o2 = Some sampleText"
    by (simp add: textObject_def)
  note a = text_object_always_emitted[of ?o1 sampleText Map.empty ?rf1 initialState, rule_format, OF h1]
  note b = text_object_always_emitted[of ?o2 sampleText ?ir2 ?rf2 initialState, rule_format, OF h2]
  note c = text_object_always_emitted[of ?o1 sampleText Map.empty Map.empty initialState, rule_format, OF h1]
  have fa: "?rf1 (td_fontFamily sampleText) = Some (Font ''font:1'')"
    by (simp add: sampleText_def)
  have fb: "?rf2 (td_fontFamily sampleText) = Some UseSvg \<and>
      lo_textSvgFileName ?o2 = Some ''t_text.svg'' \<and> ''t_text.svg'' \<noteq> [] \<and>
      ?ir2 ''t_text.svg'' = Some ''img:7''"
    by (simp add: sampleText_def textObject_def)
  have fc: "(\<forall>r. Map.empty (td_fontFamily sampleText) \<noteq> Some (Font r)) \<and>
      (\<forall>f. lo_textSvgFileName ?o1 = Some f \<and> f \<noteq> [] \<longrightarrow> Map.empty f = None)"
    by simp
  from a have a2: "elements (compileStep Map.empty ?rf1 initialState ?o1) =
      elements initialState @ [fst (emitText Map.empty ?rf1 ?o1 sampleText)]"
    by blast
  from a fa have a4: "fst (emitText Map.empty ?rf1 ?o1 sampleText) =
      Text \<lparr>tx_children = [''Hello''], tx_top = 20, tx_left = 10, tx_width = 115,
            tx_fontSize = 100, tx_color = ''#000000'', tx_fontWeight = Str ''normal'',
            tx_fontStyle = ''italic'', tx_textAlign = Str ''start'',
            tx_decoration = Some ''underline'', tx_fontRef = Some ''font:1''\<rparr>"
    by (simp add: sample_eval)
  from b have b2: "elements (compileStep ?ir2 ?rf2 initialState ?o2) =
      elements initialState @ [fst (emitText ?ir2 ?rf2 ?o2 sampleText)]"
    by blast
  from b fb have b5: "fst (emitText ?ir2 ?rf2 ?o2 sampleText) =
      Image \<lparr>im_ref = ''img:7'', im_top = 20, im_left = 10, im_width = 100, im_height = 30,
             im_altText = \<lparr>alt_text = ''Hello'', alt_decorative = False\<rparr>\<rparr>"
    by (simp add: sample_eval)
  from c have c2: "elements (compileStep Map.empty Map.empty initialState ?o1) =
      elements initialState @ [fst (emitText Map.empty Map.empty ?o1 sampleText)]"
    by blast
  from c fc have c6: "fst (emitText Map.empty Map.empty ?o1 sampleText) =
     Text \<lparr>tx_children = [''Hello''], tx_top = 20, tx_left = 10, tx_width = 115,
            tx_fontSize = 100, tx_color = ''#000000'', tx_fontWeight = Str ''normal'',
            tx_fontStyle = ''italic'', tx_textAlign = Str ''start'',
            tx_decoration = None, tx_fontRef = None\<rparr>"
    by (simp add: sample_eval)
  from a2 a4 b2 b5 c2 c6 show ?thesis
    by (simp add: initialState_def)
qed

text \<open>
  Claim C6. A text object with text data always yields exactly one element, and in its
  text element a weight or alignment token that the table does not map falls back to
  the neutral default. The code breaks the last part for a token that names a member
  of \<^verbatim>\<open>Object.prototype\<close>: \<^verbatim>\<open>TABLE[token]\<close> finds the inherited member, which is truthy,
  so \<^verbatim>\<open>||\<close> never reaches the default. With the alignment \<open>constructor\<close> and the weight
  \<open>Constructor\<close>, neither a key of its table, the element pushed carries the inherited
  member in both fields; the alignments \<open>toString\<close> and \<open>valueOf\<close> do the same.
\<close>

theorem text_object_inherited_token:
  "elements (compileStep Map.empty [''Foo Sans'' \<mapsto> Font ''font:1''] initialState
      (textObject
         (Some (sampleText\<lparr>td_fontWeight := Some ''Constructor'', td_alignment := ''constructor''\<rparr>))
         None)) =
     [Text \<lparr>tx_children = [''Hello''], tx_top = 20, tx_left = 10, tx_width = 115,
            tx_fontSize = 100, tx_color = ''#000000'', tx_fontWeight = Inherited ''constructor'',
            tx_fontStyle = ''italic'', tx_textAlign = Inherited ''constructor'',
            tx_decoration = Some ''underline'', tx_fontRef = Some ''font:1''\<rparr>]
   \<and> ''constructor'' \<notin> set (map fst FONT_WEIGHT_MAP)
   \<and> ''constructor'' \<notin> set (map fst TEXT_ALIGN_MAP)
   \<and> fontWeightOf (Some ''Constructor'') \<noteq> Str ''normal''
   \<and> textAlignOf ''constructor'' \<noteq> Str ''start''
   \<and> textAlignOf ''toString'' = Inherited ''toString''
   \<and> textAlignOf ''valueOf'' = Inherited ''valueOf''"
proof -
  have w: "fontWeightOf (Some ''Constructor'') = Inherited ''constructor''"
    by (simp add: fontWeightOf_def getProperty_def orDefault_def FONT_WEIGHT_MAP_def
        OBJECT_PROTOTYPE_KEYS_def toLowerCase_def lowerChar_def)
  have a: "textAlignOf ''constructor'' = Inherited ''constructor''"
    "textAlignOf ''toString'' = Inherited ''toString''"
    "textAlignOf ''valueOf'' = Inherited ''valueOf''"
    by (simp_all add: textAlignOf_def getProperty_def orDefault_def TEXT_ALIGN_MAP_def
        OBJECT_PROTOTYPE_KEYS_def)
  have k: "''constructor'' \<notin> set (map fst FONT_WEIGHT_MAP)"
    "''constructor'' \<notin> set (map fst TEXT_ALIGN_MAP)"
    by (simp_all add: FONT_WEIGHT_MAP_def TEXT_ALIGN_MAP_def)
  have e: "elements (compileStep Map.empty [''Foo Sans'' \<mapsto> Font ''font:1''] initialState
      (textObject
         (Some (sampleText\<lparr>td_fontWeight := Some ''Constructor'', td_alignment := ''constructor''\<rparr>))
         None)) =
     [Text \<lparr>tx_children = [''Hello''], tx_top = 20, tx_left = 10, tx_width = 115,
            tx_fontSize = 100, tx_color = ''#000000'', tx_fontWeight = Inherited ''constructor'',
            tx_fontStyle = ''italic'', tx_textAlign = Inherited ''constructor'',
            tx_decoration = Some ''underline'', tx_fontRef = Some ''font:1''\<rparr>]"
    by (simp add: compileStep_def emitObject_def emitText_def textElement_def recordOpacity_def
        pushElement_def initialState_def textObject_def sampleText_def w a truthy_def
        mathCeil_def TEXT_WIDTH_PADDING_def clampFontSize_def mathRound_def)
  from w a k e show ?thesis
    by simp
qed

text \<open>
  Claim C10. A text object without text data goes through the branch of plain images:
  when no upload is known for its file name the loop body leaves the state as it is
  (no element, no assignment, the counter unchanged), otherwise it pushes an image
  element for that upload at the object's geometry.
\<close>

theorem text_without_textData:
  "lo_type obj = TextType \<and> lo_textData obj = None \<longrightarrow>
     emitObject ir rf obj = emitImage ir obj
     \<and> (ir (lo_fileName obj) = None \<longrightarrow> compileStep ir rf st obj = st)
     \<and> (\<forall>ref. ir (lo_fileName obj) = Some ref \<longrightarrow>
          elements (compileStep ir rf st obj) =
            elements st @
              [Image \<lparr>im_ref = ref, im_top = lo_y obj, im_left = lo_x obj,
                      im_width = lo_width obj, im_height = lo_height obj,
                      im_altText = \<lparr>alt_text = lo_fileName obj, alt_decorative = False\<rparr>\<rparr>]
          \<and> elementIdx (compileStep ir rf st obj) = elementIdx st + 1)"
proof
  assume h: "lo_type obj = TextType \<and> lo_textData obj = None"
  then have e: "emitObject ir rf obj = emitImage ir obj"
    by (simp add: emitObject_def)
  have skip: "compileStep ir rf st obj = st" if "ir (lo_fileName obj) = None"
    using that e by (simp add: compileStep_def emitImage_def)
  have emit: "elements (compileStep ir rf st obj) =
            elements st @
              [Image \<lparr>im_ref = ref, im_top = lo_y obj, im_left = lo_x obj,
                      im_width = lo_width obj, im_height = lo_height obj,
                      im_altText = \<lparr>alt_text = lo_fileName obj, alt_decorative = False\<rparr>\<rparr>]
          \<and> elementIdx (compileStep ir rf st obj) = elementIdx st + 1"
    if "ir (lo_fileName obj) = Some ref" for ref
    using that e
    by (simp add: compileStep_def emitImage_def imageElement_def recordOpacity_def pushElement_def)
  from e skip emit show "emitObject ir rf obj = emitImage ir obj
     \<and> (ir (lo_fileName obj) = None \<longrightarrow> compileStep ir rf st obj = st)
     \<and> (\<forall>ref. ir (lo_fileName obj) = Some ref \<longrightarrow>
          elements (compileStep ir rf st obj) =
            elements st @
              [Image \<lparr>im_ref = ref, im_top = lo_y obj, im_left = lo_x obj,
                      im_width = lo_width obj, im_height = lo_height obj,
                      im_altText = \<lparr>alt_text = lo_fileName obj, alt_decorative = False\<rparr>\<rparr>]
          \<and> elementIdx (compileStep ir rf st obj) = elementIdx st + 1)"
    by blast
qed

text \<open>The theorem at a text object without text data: skipped when nothing was uploaded
  under its file name, an image when something was.\<close>

theorem text_without_textData_witness:
  "compileStep Map.empty Map.empty initialState (textObject None None) = initialState
   \<and> elements (compileStep [''t.svg'' \<mapsto> ''img:t''] Map.empty initialState (textObject None None)) =
     [Image \<lparr>im_ref = ''img:t'', im_top = 20, im_left = 10, im_width = 100, im_height = 30,
             im_altText = \<lparr>alt_text = ''t.svg'', alt_decorative = False\<rparr>\<rparr>]"
proof -
  let ?o = "textObject None None"
  let ?ir = "[''t.svg'' \<mapsto> ''img:t'']"
  have h: "lo_type ?o = TextType \<and> lo_textData ?o = None"
    by (simp add: textObject_def)
  note a = text_without_textData[of ?o Map.empty Map.empty initialState, rule_format, OF h]
  note b = text_without_textData[of ?o ?ir Map.empty initialState, rule_format, OF h]
  from a have "compileStep Map.empty Map.empty initialState ?o = initialState"
    by simp
  moreover have "?ir (lo_fileName ?o) = Some ''img:t''"
    by (simp add: textObject_def)
  with b have "elements (compileStep ?ir Map.empty initialState ?o) =
      elements initialState @
        [Image \<lparr>im_ref = ''img:t'', im_top = lo_y ?o, im_left = lo_x ?o,
                im_width = lo_width ?o, im_height = lo_height ?o,
                im_altText = \<lparr>alt_text = lo_fileName ?o, alt_decorative = False\<rparr>\<rparr>]"
    by blast
  ultimately show ?thesis
    by (simp add: initialState_def textObject_def)
qed

subsection \<open>Page creation and retry\<close>

lemma createPageLoop_retry:
  assumes "att < 5" and "addPage att = PageErr s" and "isRateLimit s"
  shows "createPageLoop addPage att delay waited =
         createPageLoop addPage (att + 1) (delay * 2) (waited @ [delay])"
  using assms by (subst createPageLoop.simps) simp

lemma createPageLoop_fatal:
  assumes "att \<le> 5" and "addPage att = PageErr s" and "\<not> isRateLimit s \<or> att = 5"
  shows "createPageLoop addPage att delay waited =
         \<lparr>pr_outcome = Fatal s, pr_attempts = att, pr_delays = waited\<rparr>"
  using assms by (subst createPageLoop.simps) auto

lemma rate_limited_upto:
  assumes "\<forall>att. 1 \<le> att \<and> att < k \<longrightarrow> (\<exists>s. addPage att = PageErr s \<and> isRateLimit s)"
    and "1 \<le> att" and "att < k" and "att < 5"
  shows "createPageLoop addPage att delay waited =
         createPageLoop addPage (att + 1) (delay * 2) (waited @ [delay])"
proof -
  from assms obtain s where "addPage att = PageErr s" "isRateLimit s"
    by blast
  with assms(4) show ?thesis
    by (rule createPageLoop_retry)
qed

lemma four_retries:
  assumes "\<forall>att. 1 \<le> att \<and> att < k \<longrightarrow> (\<exists>s. addPage att = PageErr s \<and> isRateLimit s)"
  shows "2 \<le> k \<Longrightarrow> createPage addPage = createPageLoop addPage 2 6000 [3000]"
    and "3 \<le> k \<Longrightarrow> createPage addPage = createPageLoop addPage 3 12000 [3000, 6000]"
    and "4 \<le> k \<Longrightarrow> createPage addPage = createPageLoop addPage 4 24000 [3000, 6000, 12000]"
    and "5 \<le> k \<Longrightarrow> createPage addPage = createPageLoop addPage 5 48000 [3000, 6000, 12000, 24000]"
proof -
  show 2: "createPage addPage = createPageLoop addPage 2 6000 [3000]" if "2 \<le> k"
    unfolding createPage_def baseDelay_def
    using rate_limited_upto[OF assms, of 1 3000 "[]"] that by (simp del: One_nat_def)
  show 3: "createPage addPage = createPageLoop addPage 3 12000 [3000, 6000]" if "3 \<le> k"
    using 2 rate_limited_upto[OF assms, of 2 6000 "[3000]"] that by simp
  show 4: "createPage addPage = createPageLoop addPage 4 24000 [3000, 6000, 12000]" if "4 \<le> k"
    using 3 rate_limited_upto[OF assms, of 3 12000 "[3000, 6000]"] that by simp
  show "createPage addPage = createPageLoop addPage 5 48000 [3000, 6000, 12000, 24000]" if "5 \<le> k"
    using 4 rate_limited_upto[OF assms, of 4 24000 "[3000, 6000, 12000]"] that by simp
qed

text \<open>
  Claim C2, as amended. When every call of a page creation fails with a rate-limit
  error, the loop makes exactly 5 calls and waits exactly 4 times between them, for
  base, 2 base, 4 base and 8 base milliseconds (base = 3000); the fifth failure is
  fatal at once, and no delay of 16 base is ever waited. An error that is not a
  rate-limit error is fatal at the attempt \<open>k\<close> where it occurs: the run ends with \<open>k\<close>
  calls made and only the \<open>k - 1\<close> delays of the earlier rate-limited attempts.
\<close>

theorem createPage_backoff:
  "((\<forall>att. 1 \<le> att \<and> att \<le> 5 \<longrightarrow> (\<exists>s. addPage att = PageErr s \<and> isRateLimit s)) \<longrightarrow>
      (\<exists>s. addPage 5 = PageErr s \<and>
           createPage addPage =
             \<lparr>pr_outcome = Fatal s, pr_attempts = 5,
              pr_delays = [baseDelay, 2 * baseDelay, 4 * baseDelay, 8 * baseDelay]\<rparr>))
   \<and> (1 \<le> k \<and> k \<le> 5 \<and>
        (\<forall>att. 1 \<le> att \<and> att < k \<longrightarrow> (\<exists>s. addPage' att = PageErr s \<and> isRateLimit s)) \<and>
        addPage' k = PageErr e \<and> \<not> isRateLimit e \<longrightarrow>
      createPage addPage' =
        \<lparr>pr_outcome = Fatal e, pr_attempts = k,
         pr_delays = take (k - 1) [baseDelay, 2 * baseDelay, 4 * baseDelay, 8 * baseDelay]\<rparr>)"
proof (intro conjI impI)
  assume all: "\<forall>att. 1 \<le> att \<and> att \<le> 5 \<longrightarrow> (\<exists>s. addPage att = PageErr s \<and> isRateLimit s)"
  then obtain s where s: "addPage 5 = PageErr s"
    by fastforce
  from all have "\<forall>att. 1 \<le> att \<and> att < 5 \<longrightarrow> (\<exists>s. addPage att = PageErr s \<and> isRateLimit s)"
    by simp
  then have "createPage addPage = createPageLoop addPage 5 48000 [3000, 6000, 12000, 24000]"
    by (rule four_retries(4)) simp
  also have "\<dots> = \<lparr>pr_outcome = Fatal s, pr_attempts = 5,
                    pr_delays = [3000, 6000, 12000, 24000]\<rparr>"
    using s by (intro createPageLoop_fatal) simp_all
  finally have "createPage addPage =
             \<lparr>pr_outcome = Fatal s, pr_attempts = 5,
              pr_delays = [baseDelay, 2 * baseDelay, 4 * baseDelay, 8 * baseDelay]\<rparr>"
    by (simp add: baseDelay_def)
  with s show "\<exists>s. addPage 5 = PageErr s \<and>
           createPage addPage =
             \<lparr>pr_outcome = Fatal s, pr_attempts = 5,
              pr_delays = [baseDelay, 2 * baseDelay, 4 * baseDelay, 8 * baseDelay]\<rparr>"
    by blast
next
  assume h: "1 \<le> k \<and> k \<le> 5 \<and>
        (\<forall>att. 1 \<le> att \<and> att < k \<longrightarrow> (\<exists>s. addPage' att = PageErr s \<and> isRateLimit s)) \<and>
        addPage' k = PageErr e \<and> \<not> isRateLimit e"
  then have rl: "\<forall>att. 1 \<le> att \<and> att < k \<longrightarrow> (\<exists>s. addPage' att = PageErr s \<and> isRateLimit s)"
    and e: "addPage' k = PageErr e" and ne: "\<not> isRateLimit e \<or> k = 5" and k5: "k \<le> 5"
    by simp_all
  have fatal: "createPageLoop addPage' k delay waited =
      \<lparr>pr_outcome = Fatal e, pr_attempts = k, pr_delays = waited\<rparr>" for delay waited
    using k5 e ne by (rule createPageLoop_fatal)
  from h consider "k = 1" | "k = 2" | "k = 3" | "k = 4" | "k = 5"
    by linarith
  then show "createPage addPage' =
        \<lparr>pr_outcome = Fatal e, pr_attempts = k,
         pr_delays = take (k - 1) [baseDelay, 2 * baseDelay, 4 * baseDelay, 8 * baseDelay]\<rparr>"
  proof cases
    case 1
    have "createPage addPage' = createPageLoop addPage' k baseDelay []"
      unfolding createPage_def 1 ..
    with fatal 1 show ?thesis
      by simp
  next
    case 2
    then have "createPage addPage' = createPageLoop addPage' k 6000 [3000]"
      using four_retries(1)[OF rl] by simp
    with fatal 2 show ?thesis
      by (simp add: baseDelay_def)
  next
    case 3
    then have "createPage addPage' = createPageLoop addPage' k 12000 [3000, 6000]"
      using four_retries(2)[OF rl] by simp
    with fatal 3 show ?thesis
      by (simp add: baseDelay_def)
  next
    case 4
    then have "createPage addPage' = createPageLoop addPage' k 24000 [3000, 6000, 12000]"
      using four_retries(3)[OF rl] by simp
    with fatal 4 show ?thesis
      by (simp add: baseDelay_def)
  next
    case 5
    then have "createPage addPage' = createPageLoop addPage' k 48000 [3000, 6000, 12000, 24000]"
      using four_retries(4)[OF rl] by simp
    with fatal 5 show ?thesis
      by (simp add: baseDelay_def)
  qed
qed

lemma isRateLimit_examples:
  "isRateLimit ''Error: rate_limit''" "isRateLimit ''RATE_LIMITED''" "\<not> isRateLimit ''boom''"
  by (simp_all add: isRateLimit_def)

text \<open>The theorem at a call that is always rate limited, and at one whose third
  attempt fails for another reason.\<close>

theorem createPage_backoff_witness:
  "createPage (\<lambda>att. PageErr ''RATE_LIMITED'') =
     \<lparr>pr_outcome = Fatal ''RATE_LIMITED'', pr_attempts = 5,
      pr_delays = [3000, 6000, 12000, 24000]\<rparr>
   \<and> createPage (\<lambda>att. if att < 3 then PageErr ''Error: rate_limit'' else PageErr ''boom'') =
     \<lparr>pr_outcome = Fatal ''boom'', pr_attempts = 3, pr_delays = [3000, 6000]\<rparr>"
proof -
  let ?a = "\<lambda>att::nat. PageErr ''RATE_LIMITED''"
  let ?b = "\<lambda>att::nat. if att < 3 then PageErr ''Error: rate_limit'' else PageErr ''boom''"
  note t = createPage_backoff[of ?a 3 ?b "''boom''"]
  have h1: "\<forall>att. 1 \<le> att \<and> att \<le> 5 \<longrightarrow> (\<exists>s. ?a att = PageErr s \<and> isRateLimit s)"
    using isRateLimit_examples by simp
  have h2: "1 \<le> (3::nat) \<and> (3::nat) \<le> 5 \<and>
        (\<forall>att. 1 \<le> att \<and> att < 3 \<longrightarrow> (\<exists>s. ?b att = PageErr s \<and> isRateLimit s)) \<and>
        ?b 3 = PageErr ''boom'' \<and> \<not> isRateLimit ''boom''"
    using isRateLimit_examples by simp
  from t h1 have "\<exists>s. ?a 5 = PageErr s \<and> createPage ?a =
      \<lparr>pr_outcome = Fatal s, pr_attempts = 5,
       pr_delays = [baseDelay, 2 * baseDelay, 4 * baseDelay, 8 * baseDelay]\<rparr>"
    by blast
  then have a: "createPage ?a = \<lparr>pr_outcome = Fatal ''RATE_LIMITED'', pr_attempts = 5,
      pr_delays = [3000, 6000, 12000, 24000]\<rparr>"
    by (simp add: baseDelay_def)
  from t h2 have "createPage ?b = \<lparr>pr_outcome = Fatal ''boom'', pr_attempts = 3,
         pr_delays = take (3 - 1) [baseDelay, 2 * baseDelay, 4 * baseDelay, 8 * baseDelay]\<rparr>"
    by blast
  then have b: "createPage ?b = \<lparr>pr_outcome = Fatal ''boom'', pr_attempts = 3, pr_delays = [3000, 6000]\<rparr>"
    by (simp add: baseDelay_def)
  from a b show ?thesis
    by blast
qed

text \<open>
  Claim C2 as stated fails: a persistently rate-limited call makes 5 attempts, and
  the delays waited are not the five delays base, ..., 16 base.
\<close>

theorem createPage_five_delays_counterexample:
  "pr_attempts (createPage (\<lambda>att. PageErr ''RATE_LIMITED'')) = 5 \<and>
   pr_delays (createPage (\<lambda>att. PageErr ''RATE_LIMITED'')) \<noteq>
     [baseDelay, 2 * baseDelay, 4 * baseDelay, 8 * baseDelay, 16 * baseDelay]"
proof -
  have r: "isRateLimit ''RATE_LIMITED''"
    by (simp add: isRateLimit_def)
  have "createPage (\<lambda>att. PageErr ''RATE_LIMITED'') =
        createPageLoop (\<lambda>att. PageErr ''RATE_LIMITED'') 5 48000 [3000, 6000, 12000, 24000]"
    by (rule four_retries(4)[of 5]) (simp_all add: r)
  also have "\<dots> = \<lparr>pr_outcome = Fatal ''RATE_LIMITED'', pr_attempts = 5,
                    pr_delays = [3000, 6000, 12000, 24000]\<rparr>"
    by (rule createPageLoop_fatal) simp_all
  finally show ?thesis
    by simp
qed

end
